theory Spec2Isabelle
  imports Main "HOL-Library.Sublist"
begin

section \<open>Data model\<close>

text \<open>
  The console is a React application. \<^verbatim>\<open>App\<close> owns the session (peer connection, data
  channel, event list), \<^verbatim>\<open>ToolPanel\<close> is the dispatcher reacting to the event list, and
  \<^verbatim>\<open>EventLog\<close> renders it. Events are JSON objects; the fields the code reads are record
  fields here, and a field that may be absent is an \<open>option\<close>. What the code never reads
  (the item of a text message, the schema of a tool's parameters) is left out.

  A JSON text (the \<^verbatim>\<open>arguments\<close> of a function call, the \<^verbatim>\<open>data\<close> of an inbound message) is
  represented by what \<^verbatim>\<open>JSON.parse\<close> makes of it: the value it encodes, or the raw text when
  it encodes none. \<^verbatim>\<open>JSON.stringify\<close> is the converse, so the transmitted text of a message
  is represented by the message. An object is the list of its properties, each key once;
  numbers are kept as integers, and nothing below computes with them.
\<close>

datatype json = JNull | JBool bool | JNumber int | JString string
  | JArray "json list" | JObject "(string \<times> json) list"

datatype 'a json_text = Encodes 'a | Malformed string

fun JSON_parse :: "'a json_text \<Rightarrow> 'a option" where
  "JSON_parse (Encodes v) = Some v"
| "JSON_parse (Malformed s) = None"

text \<open>
  An item of \<^verbatim>\<open>response.output\<close>: \<^verbatim>\<open>{type, name, arguments}\<close>. Arguments that are absent
  are a text that encodes nothing: \<^verbatim>\<open>JSON.parse(undefined)\<close> throws as on any other.
\<close>

record output_item =
  output_type :: string
  name :: string
  arguments :: "json json_text"

record response =
  outputs :: "output_item list option"
  instructions :: "string option"

record tool =
  tool_name :: string
  description :: string

record event =
  event_id :: "string option"
  type :: "string option"
  response :: "response option"
  command :: "json option"
  session_tools :: "tool list option"

text \<open>
  Objects of the platform are named by numbers: an \<^verbatim>\<open>RTCDataChannel\<close> has a
  \<^verbatim>\<open>readyState\<close>, and a reference to it (in React state or in a closure) is its number.
\<close>

type_synonym chan = nat
type_synonym pc = nat

datatype ready_state = Connecting | Open | Closing | Closed

datatype error = InvalidStateError | TypeError

text \<open>A call either returns or throws; a throw keeps the state reached before it.\<close>

datatype 'a outcome = Returns 'a | Throws error 'a

fun state_of :: "'a outcome \<Rightarrow> 'a" where
  "state_of (Returns s) = s"
| "state_of (Throws e s) = s"

datatype console_entry = Console_error string | Console_log string

text \<open>
  A pending \<^verbatim>\<open>setTimeout\<close> callback of the dispatcher. Its closure holds the
  \<^verbatim>\<open>sendClientEvent\<close> of the render that scheduled it, hence that render's
  \<^verbatim>\<open>dataChannel\<close>, and the output item it was scheduled for.
\<close>

record timer =
  captured_dataChannel :: "chan option"
  captured_output :: output_item

text \<open>
  The state: the React state of \<^verbatim>\<open>App\<close> (first four fields) and of \<^verbatim>\<open>ToolPanel\<close> (next
  four), the module-level \<^verbatim>\<open>sessionUpdate\<close> object, which \<^verbatim>\<open>sendClientEvent\<close> mutates, and
  the world around them: the channels' ready states, what was transmitted, the console,
  the pending timers, and the source of \<^verbatim>\<open>crypto.randomUUID()\<close>, of which the \<open>n\<close>-th call
  returns \<open>crypto st n\<close>.
\<close>

record app =
  isSessionActive :: bool
  events :: "event list"
  dataChannel :: "chan option"
  peerConnection :: "pc option"
  functionAdded :: bool
  functionCallOutput :: "output_item option"
  activeFunction :: "string option"
  snakeCommand :: "json option"
  sessionUpdate :: event
  readyState :: "chan \<Rightarrow> ready_state"
  connectionClosed :: "pc \<Rightarrow> bool"
  wire :: "(chan \<times> event) list"
  console :: "console_entry list"
  timers :: "timer list"
  crypto :: "nat \<Rightarrow> string"
  uuids_drawn :: nat

text \<open>The capability manifest of the panel (names and descriptions of its tools).\<close>

definition sessionUpdate_manifest :: event where
  "sessionUpdate_manifest =
     \<lparr>event_id = None, type = Some ''session.update'', response = None, command = None,
      session_tools = Some
        [\<lparr>tool_name = ''control_snake'',
          description = ''Control the snake in the game. Use this to move the snake up, down, left, right, or stop it.''\<rparr>,
         \<lparr>tool_name = ''display_color_palette'',
          description = ''Generate and display a color palette based on a theme''\<rparr>,
         \<lparr>tool_name = ''create_pixel_art'',
          description = ''Generate and display simple pixel art drawings''\<rparr>]\<rparr>"

text \<open>The initial values of every \<^verbatim>\<open>useState\<close> and \<^verbatim>\<open>useRef\<close>: a session never started.\<close>

definition initial :: "(nat \<Rightarrow> string) \<Rightarrow> app" where
  "initial uuids =
     \<lparr>isSessionActive = False, events = [], dataChannel = None, peerConnection = None,
      functionAdded = False, functionCallOutput = None, activeFunction = None,
      snakeCommand = None, sessionUpdate = sessionUpdate_manifest,
      readyState = (\<lambda>_. Connecting), connectionClosed = (\<lambda>_. False),
      wire = [], console = [], timers = [], crypto = uuids, uuids_drawn = 0\<rparr>"

section \<open>The platform\<close>

text \<open>
  \<^verbatim>\<open>RTCDataChannel.send\<close> transmits on an open channel and throws \<^verbatim>\<open>InvalidStateError\<close> on
  any other; \<^verbatim>\<open>close()\<close> starts closing a channel and does nothing on one already closing
  or closed; neither \<^verbatim>\<open>close()\<close> throws.
\<close>

definition randomUUID :: "app \<Rightarrow> string \<times> app" where
  "randomUUID st = (crypto st (uuids_drawn st), st\<lparr>uuids_drawn := Suc (uuids_drawn st)\<rparr>)"

definition dc_send :: "chan \<Rightarrow> event \<Rightarrow> app \<Rightarrow> app outcome" where
  "dc_send dc message st =
     (if readyState st dc = Open then Returns (st\<lparr>wire := wire st @ [(dc, message)]\<rparr>)
      else Throws InvalidStateError st)"

definition dc_close :: "chan \<Rightarrow> app \<Rightarrow> app" where
  "dc_close dc st =
     (if readyState st dc = Closing \<or> readyState st dc = Closed then st
      else st\<lparr>readyState := (readyState st)(dc := Closing)\<rparr>)"

definition pc_close :: "pc \<Rightarrow> app \<Rightarrow> app" where
  "pc_close p st = st\<lparr>connectionClosed := (connectionClosed st)(p := True)\<rparr>"

definition dc_opens :: "chan \<Rightarrow> app \<Rightarrow> app" where
  "dc_opens dc st = st\<lparr>readyState := (readyState st)(dc := Open)\<rparr>"

section \<open>App: the session and its event channel\<close>

text \<open>
  \<^verbatim>\<open>startSession\<close> once each of its awaits is fulfilled: \<open>dc\<close> and \<open>p\<close> are the objects that
  \<^verbatim>\<open>pc.createDataChannel\<close> and \<^verbatim>\<open>new RTCPeerConnection\<close> created.
\<close>

definition startSession :: "chan \<Rightarrow> pc \<Rightarrow> app \<Rightarrow> app" where
  "startSession dc p st =
     st\<lparr>dataChannel := Some dc, peerConnection := Some p,
        readyState := (readyState st)(dc := Connecting),
        connectionClosed := (connectionClosed st)(p := False)\<rparr>"

definition stopSession :: "app \<Rightarrow> app" where
  "stopSession st =
     (let st1 = (case dataChannel st of Some dc \<Rightarrow> dc_close dc st | None \<Rightarrow> st);
          st2 = (case peerConnection st of Some p \<Rightarrow> pc_close p st1 | None \<Rightarrow> st1)
      in st2\<lparr>isSessionActive := False, dataChannel := None, peerConnection := None\<rparr>)"

text \<open>
  \<^verbatim>\<open>message.event_id = message.event_id || crypto.randomUUID()\<close>: an absent id and the
  empty string are falsy.
\<close>

definition truthy :: "string option \<Rightarrow> bool" where
  "truthy s = (case s of None \<Rightarrow> False | Some i \<Rightarrow> i \<noteq> [])"

definition assign_event_id :: "event \<Rightarrow> app \<Rightarrow> event \<times> app" where
  "assign_event_id message st =
     (if truthy (event_id message) then (message, st)
      else (case randomUUID st of (u, st') \<Rightarrow> (message\<lparr>event_id := Some u\<rparr>, st')))"

text \<open>
  \<^verbatim>\<open>sendClientEvent\<close> reads the \<^verbatim>\<open>dataChannel\<close> of the render that created it, which is the
  first argument here. It mutates its argument, so the message is returned as the call
  leaves it.
\<close>

definition sendClientEvent :: "chan option \<Rightarrow> event \<Rightarrow> app \<Rightarrow> (event \<times> app) outcome" where
  "sendClientEvent dataChannel' message st =
     (case dataChannel' of
        Some dc \<Rightarrow>
          (case assign_event_id message st of (message', st1) \<Rightarrow>
             (case dc_send dc message' st1 of
                Throws e st2 \<Rightarrow> Throws e (message', st2)
              | Returns st2 \<Rightarrow> Returns (message', st2\<lparr>events := message' # events st2\<rparr>)))
      | None \<Rightarrow>
          Returns (message, st\<lparr>console := console st @
            [Console_error ''Failed to send message - no data channel available'']\<rparr>))"

text \<open>The listeners that the effect on \<^verbatim>\<open>dataChannel\<close> attaches.\<close>

definition on_message :: "event json_text \<Rightarrow> app \<Rightarrow> app" where
  "on_message data st =
     (case JSON_parse data of
        Some d \<Rightarrow> st\<lparr>events := d # events st\<rparr>
      | None \<Rightarrow> st\<lparr>console := console st @ [Console_error ''Error parsing message data:'']\<rparr>)"

definition on_open :: "app \<Rightarrow> app" where
  "on_open st = st\<lparr>isSessionActive := True, events := []\<rparr>"

section \<open>ToolPanel: the dispatcher\<close>

text \<open>
  An effect runs after a render. It reads the values of that render (\<open>r\<close>) and queues
  state updates, which are applied to the current state (\<open>st\<close>).
\<close>

definition follow_up :: "output_item \<Rightarrow> event" where
  "follow_up output' =
     \<lparr>event_id = None, type = Some ''response.create'',
      response = Some \<lparr>outputs = None, instructions = Some
        (if name output' = ''create_pixel_art''
         then ''ask for feedback about the pixel art - don't describe it again, just ask if they like it''
         else ''ask for feedback about the color palette - don't repeat the colors, just ask if they like the colors'')\<rparr>,
      command = None, session_tools = None\<rparr>"

text \<open>\<^verbatim>\<open>const { direction } = v\<close> throws on \<^verbatim>\<open>null\<close> and reads \<^verbatim>\<open>undefined\<close> from a primitive.\<close>

fun destructure_direction :: "json \<Rightarrow> error + json option" where
  "destructure_direction JNull = Inl TypeError"
| "destructure_direction (JObject properties) = Inr (map_of properties ''direction'')"
| "destructure_direction _ = Inr None"

text \<open>The \<^verbatim>\<open>catch\<close> block of the dispatcher.\<close>

definition caught :: "app \<Rightarrow> app" where
  "caught st = st\<lparr>console := console st @
     [Console_error ''Error parsing function arguments:'', Console_log ''Raw arguments:'']\<rparr>"

text \<open>The callback of \<^verbatim>\<open>mostRecentEvent.response.output.forEach\<close>.\<close>

definition function_call :: "app \<Rightarrow> output_item \<Rightarrow> app \<Rightarrow> app" where
  "function_call r output' st =
     (if output_type output' = ''function_call'' then
        (let st1 = st\<lparr>console := console st @
               [Console_log ''Function call detected:'', Console_log ''Function arguments:'']\<rparr>
         in case JSON_parse (arguments output') of
              None \<Rightarrow> caught st1
            | Some _ \<Rightarrow>
                (let st2 = st1\<lparr>functionCallOutput := Some output',
                              activeFunction := Some (name output')\<rparr>
                 in if name output' = ''control_snake'' then
                      (case JSON_parse (arguments output') of
                         None \<Rightarrow> caught st2
                       | Some v \<Rightarrow>
                           (case destructure_direction v of
                              Inl _ \<Rightarrow> caught st2
                            | Inr direction \<Rightarrow> st2\<lparr>snakeCommand := direction\<rparr>))
                    else st2\<lparr>timers := timers st2 @
                           [\<lparr>captured_dataChannel = dataChannel r, captured_output = output'\<rparr>]\<rparr>))
      else st)"

text \<open>
  The first effect on \<^verbatim>\<open>events\<close>, in its two halves, registration and routing. Both read
  the ends of the list, \<^verbatim>\<open>events[events.length - 1]\<close> and \<^verbatim>\<open>events[0]\<close>, and run only after
  the effect has returned early on an empty list. \<^verbatim>\<open>mostRecentEvent.response.output\<close> throws
  when the event has no \<^verbatim>\<open>response\<close>.
\<close>

definition register :: "app \<Rightarrow> app \<Rightarrow> app outcome" where
  "register r st =
     (if \<not> functionAdded r \<and> type (last (events r)) = Some ''session.created'' then
        (case sendClientEvent (dataChannel r) (sessionUpdate st) st of
           Throws e (m, st1) \<Rightarrow> Throws e (st1\<lparr>sessionUpdate := m\<rparr>)
         | Returns (m, st1) \<Rightarrow> Returns (st1\<lparr>sessionUpdate := m, functionAdded := True\<rparr>))
      else Returns st)"

definition route :: "app \<Rightarrow> app \<Rightarrow> app outcome" where
  "route r st =
     (let mostRecentEvent = hd (events r) in
      if type mostRecentEvent = Some ''response.done'' then
        (case response mostRecentEvent of
           None \<Rightarrow> Throws TypeError st
         | Some resp \<Rightarrow>
             (case outputs resp of
                None \<Rightarrow> Returns st
              | Some outs \<Rightarrow> Returns (fold (function_call r) outs st)))
      else Returns st)"

definition dispatcher_effect :: "app \<Rightarrow> app \<Rightarrow> app outcome" where
  "dispatcher_effect r st =
     (if events r = [] then Returns st
      else (case register r st of
              Throws e st1 \<Rightarrow> Throws e st1
            | Returns st1 \<Rightarrow> route r st1))"

text \<open>The effect on \<^verbatim>\<open>isSessionActive\<close> and the second effect on \<^verbatim>\<open>events\<close>.\<close>

definition session_effect :: "app \<Rightarrow> app \<Rightarrow> app" where
  "session_effect r st =
     (if \<not> isSessionActive r
      then st\<lparr>functionAdded := False, functionCallOutput := None, activeFunction := None\<rparr>
      else st)"

definition snake_effect :: "app \<Rightarrow> app \<Rightarrow> app" where
  "snake_effect r st =
     (case events r of
        [] \<Rightarrow> st
      | lastEvent # _ \<Rightarrow>
          if type lastEvent = Some ''snake.command'' then st\<lparr>snakeCommand := command lastEvent\<rparr>
          else st)"

section \<open>Rendering: effects after a state change\<close>

text \<open>
  After a render React runs, in the order of their declaration, the effects of which a
  dependency differs from the previous render (\<open>prev\<close>). An effect that throws takes the
  component tree down. React compares the lists by identity and the model by value; the
  two differ only where a list is replaced by an equal one, which happens when a channel
  opens on an empty list, and there both effects on \<^verbatim>\<open>events\<close> return at once.
\<close>

definition run_effects :: "app \<Rightarrow> app \<Rightarrow> app outcome" where
  "run_effects prev r =
     (case (if events prev \<noteq> events r then dispatcher_effect r r else Returns r) of
        Throws e st \<Rightarrow> Throws e st
      | Returns st \<Rightarrow>
          (let st1 = (if isSessionActive prev \<noteq> isSessionActive r then session_effect r st else st);
               st2 = (if events prev \<noteq> events r then snake_effect r st1 else st1)
           in Returns st2))"

lemma fold_function_call_keeps:
  "events (fold (function_call r) outs st) = events st \<and>
   isSessionActive (fold (function_call r) outs st) = isSessionActive st \<and>
   functionAdded (fold (function_call r) outs st) = functionAdded st \<and>
   wire (fold (function_call r) outs st) = wire st"
  by (induction outs arbitrary: st)
     (auto simp: function_call_def caught_def Let_def split: option.splits sum.splits)

lemma run_effects_progress:
  assumes "run_effects prev r = Returns st"
  shows "isSessionActive st = isSessionActive r"
    and "functionAdded r \<Longrightarrow> events st = events r"
    and "events st \<noteq> events r \<Longrightarrow> isSessionActive prev = isSessionActive r \<Longrightarrow> functionAdded st"
  using assms
  by (auto simp: run_effects_def dispatcher_effect_def register_def route_def session_effect_def
      snake_effect_def Let_def fold_function_call_keeps
      sendClientEvent_def assign_event_id_def randomUUID_def dc_send_def
      split: option.splits if_splits prod.splits outcome.splits list.splits)

text \<open>
  Updates queued by the effects cause the next render, until a render changes no
  dependency. The loop ends: only a registration changes \<^verbatim>\<open>events\<close>, and it sets the flag
  that prevents the next one.
\<close>

function rerender :: "app \<Rightarrow> app \<Rightarrow> app outcome" where
  "rerender prev r =
     (if events prev = events r \<and> isSessionActive prev = isSessionActive r then Returns r
      else (case run_effects prev r of
              Throws e st \<Rightarrow> Throws e st
            | Returns st \<Rightarrow> rerender r st))"
  by pat_completeness auto
termination
proof (relation "measure (\<lambda>(prev, r).
    if events prev = events r \<and> isSessionActive prev = isSessionActive r then 0
    else if functionAdded r then 1
    else if isSessionActive prev = isSessionActive r then 2 else 3)", goal_cases)
  case 1
  then show ?case by simp
next
  case (2 prev r st)
  then show ?case
    using run_effects_progress[of prev r st] by (auto split: if_splits)
qed

declare rerender.simps [simp del]

section \<open>What happens to the application\<close>

text \<open>
  A message arrives, a component calls \<^verbatim>\<open>sendClientEvent\<close>, or the oldest pending timer
  fires (all timers have the same delay). An exception that leaves a listener or a timer
  callback is reported by the host and the page carries on.
\<close>

datatype action = Message "event json_text" | Send event | Timeout

fun handler :: "action \<Rightarrow> app \<Rightarrow> app outcome" where
  "handler (Message data) st = Returns (on_message data st)"
| "handler (Send message) st =
     (case sendClientEvent (dataChannel st) message st of
        Throws e (m, st1) \<Rightarrow> Throws e st1
      | Returns (m, st1) \<Rightarrow> Returns st1)"
| "handler Timeout st =
     (case timers st of
        [] \<Rightarrow> Returns st
      | t # ts \<Rightarrow>
          (case sendClientEvent (captured_dataChannel t) (follow_up (captured_output t))
                  (st\<lparr>timers := ts\<rparr>) of
             Throws e (m, st1) \<Rightarrow> Throws e st1
           | Returns (m, st1) \<Rightarrow> Returns st1))"

fun uncaught :: "app outcome \<Rightarrow> app" where
  "uncaught (Returns st) = st"
| "uncaught (Throws e st) = st\<lparr>console := console st @ [Console_error ''Uncaught'']\<rparr>"

definition step :: "action \<Rightarrow> app \<Rightarrow> app outcome" where
  "step a st = rerender st (uncaught (handler a st))"

fun run :: "action list \<Rightarrow> app \<Rightarrow> app outcome" where
  "run [] st = Returns st"
| "run (a # as) st =
     (case step a st of
        Throws e st1 \<Rightarrow> Throws e st1
      | Returns st1 \<Rightarrow> run as st1)"

text \<open>The channel opens, and the user stops the session: the listener, then the effects.\<close>

definition opened :: "chan \<Rightarrow> app \<Rightarrow> app outcome" where
  "opened dc st = rerender st (on_open (dc_opens dc st))"

definition stop :: "app \<Rightarrow> app outcome" where
  "stop st = rerender st (stopSession st)"

section \<open>EventLog\<close>







section \<open>The panel that offers games\<close>

text \<open>
  The repository holds two more versions of the panel, which register other tools (one
  offers \<^verbatim>\<open>create_game\<close> in place of \<^verbatim>\<open>control_snake\<close>, one only the palette and the pixel
  art). Their effects are those above but for the callback of \<^verbatim>\<open>forEach\<close>, which does not
  parse the arguments. This is the callback of the panel with \<^verbatim>\<open>create_game\<close>; the third
  panel's is the same without the two console lines.
\<close>

definition function_call_game :: "app \<Rightarrow> output_item \<Rightarrow> app \<Rightarrow> app" where
  "function_call_game r output' st =
     (if output_type output' = ''function_call'' then
        st\<lparr>console := console st @
             [Console_log ''Function call detected:'', Console_log ''Function arguments:''],
           functionCallOutput := Some output', activeFunction := Some (name output'),
           timers := timers st @
             [\<lparr>captured_dataChannel = dataChannel r, captured_output = output'\<rparr>]\<rparr>
      else st)"

section \<open>Vocabulary of the statements\<close>

text \<open>Consecutive calls of \<^verbatim>\<open>sendClientEvent\<close> by one render, up to the first that throws.\<close>

fun send_all :: "chan option \<Rightarrow> event list \<Rightarrow> app \<Rightarrow> app outcome" where
  "send_all dc [] st = Returns st"
| "send_all dc (message # messages) st =
     (case sendClientEvent dc message st of
        Throws e (m, st1) \<Rightarrow> Throws e st1
      | Returns (m, st1) \<Rightarrow> send_all dc messages st1)"

fun throws :: "'a outcome \<Rightarrow> bool" where
  "throws (Returns s) = False"
| "throws (Throws e s) = True"

text \<open>The registrations transmitted so far, on any channel.\<close>

definition registrations :: "app \<Rightarrow> nat" where
  "registrations st = length (filter (\<lambda>(dc, m). type m = Some ''session.update'') (wire st))"

text \<open>
  A session is running on channel \<open>c\<close>: the channel is the current one and open, the
  session is active, and the manifest object is a \<^verbatim>\<open>session.update\<close>.
\<close>

definition in_session :: "chan \<Rightarrow> app \<Rightarrow> bool" where
  "in_session c st \<longleftrightarrow>
     isSessionActive st \<and> dataChannel st = Some c \<and> readyState st c = Open \<and>
     type (sessionUpdate st) = Some ''session.update''"

text \<open>A component other than the dispatcher sends a \<^verbatim>\<open>session.update\<close> of its own.\<close>

definition sends_manifest :: "action \<Rightarrow> bool" where
  "sends_manifest a = (case a of Send m \<Rightarrow> type m = Some ''session.update'' | _ \<Rightarrow> False)"


text \<open>
  The registrations made plus the one still allowed while the flag is down. A step of a
  session on \<open>c\<close> stays in the session, adds to the event list at its head only, loses
  no registration, does not raise this sum, and registers nothing when the oldest entry
  of the list is not \<^verbatim>\<open>session.created\<close>.
\<close>

definition quota :: "app \<Rightarrow> nat" where
  "quota st = registrations st + (if functionAdded st then 0 else 1)"

definition session_step :: "chan \<Rightarrow> app \<Rightarrow> app \<Rightarrow> bool" where
  "session_step c a b \<longleftrightarrow>
     (in_session c a \<longrightarrow>
        in_session c b \<and> suffix (events a) (events b) \<and>
        registrations a \<le> registrations b \<and> quota b \<le> quota a \<and>
        (events a \<noteq> [] \<and> type (last (events a)) \<noteq> Some ''session.created'' \<longrightarrow>
           registrations b = registrations a))"

section \<open>Concrete sessions\<close>

text \<open>
  A stand-in for \<^verbatim>\<open>crypto.randomUUID()\<close> that never repeats, a session whose channel has
  just opened, the same session after its first event, and after a palette was asked
  for; some events and output items of the wire format.
\<close>

definition sample_uuid :: "nat \<Rightarrow> string" where
  "sample_uuid n = ''uuid-'' @ replicate n CHR ''x''"

definition session_created :: event where
  "session_created = \<lparr>event_id = Some ''event_1'', type = Some ''session.created'',
     response = None, command = None, session_tools = None\<rparr>"

definition response_create :: event where
  "response_create = \<lparr>event_id = None, type = Some ''response.create'',
     response = None, command = None, session_tools = None\<rparr>"

definition response_done :: "output_item list \<Rightarrow> event" where
  "response_done outs = \<lparr>event_id = Some ''event_2'', type = Some ''response.done'',
     response = Some \<lparr>outputs = Some outs, instructions = None\<rparr>,
     command = None, session_tools = None\<rparr>"


definition palette_call :: output_item where
  "palette_call = \<lparr>output_type = ''function_call'', name = ''display_color_palette'',
     arguments = Encodes (JObject [(''theme'', JString ''ocean''),
       (''colors'', JArray [JString ''#001'', JString ''#002'', JString ''#003'',
          JString ''#004'', JString ''#005''])])\<rparr>"

definition malformed_call :: output_item where
  "malformed_call = \<lparr>output_type = ''function_call'', name = ''display_color_palette'',
     arguments = Malformed ''{not json''\<rparr>"

definition snake_call :: "json json_text \<Rightarrow> output_item" where
  "snake_call args =
     \<lparr>output_type = ''function_call'', name = ''control_snake'', arguments = args\<rparr>"

definition session0 :: app where
  "session0 = state_of (opened 0 (startSession 0 0 (initial sample_uuid)))"

definition session1 :: app where
  "session1 = state_of (run [Message (Encodes session_created)] session0)"

definition session2 :: app where
  "session2 = state_of (run [Message (Encodes (response_done [palette_call]))] session1)"

section \<open>Renders that settle at once\<close>

lemma rerender_same:
  "events prev = events r \<Longrightarrow> isSessionActive prev = isSessionActive r \<Longrightarrow>
   rerender prev r = Returns r"
  by (subst rerender.simps) simp

lemma stopSession_fields:
  "events (stopSession st) = events st"
  "isSessionActive (stopSession st) = False"
  "dataChannel (stopSession st) = None"
  "peerConnection (stopSession st) = None"
  "timers (stopSession st) = timers st"
  "wire (stopSession st) = wire st"
  "console (stopSession st) = console st"
  "functionAdded (stopSession st) = functionAdded st"
  by (simp_all add: stopSession_def Let_def dc_close_def pc_close_def split: option.splits)

lemma session_effect_fields:
  "events (session_effect r st) = events st"
  "isSessionActive (session_effect r st) = isSessionActive st"
  "dataChannel (session_effect r st) = dataChannel st"
  "peerConnection (session_effect r st) = peerConnection st"
  "timers (session_effect r st) = timers st"
  "wire (session_effect r st) = wire st"
  "console (session_effect r st) = console st"
  "readyState (session_effect r st) = readyState st"
  by (simp_all add: session_effect_def)

text \<open>
  Stopping changes \<^verbatim>\<open>isSessionActive\<close> at most, so the only effect that can run is the one
  that resets the panel.
\<close>

lemma stop_returns:
  "stop st = Returns (if isSessionActive st
     then session_effect (stopSession st) (stopSession st) else stopSession st)"
proof (cases "isSessionActive st")
  case False
  then show ?thesis
    by (simp add: stop_def rerender_same stopSession_fields)
next
  case True
  have "run_effects st (stopSession st) = Returns (session_effect (stopSession st) (stopSession st))"
    using True by (simp add: run_effects_def stopSession_fields)
  moreover have "rerender (stopSession st) (session_effect (stopSession st) (stopSession st))
      = Returns (session_effect (stopSession st) (stopSession st))"
    by (rule rerender_same) (simp_all add: session_effect_fields)
  ultimately show ?thesis
    using True by (subst stop_def, subst rerender.simps) (simp add: stopSession_fields)
qed

lemma stopSession_stopped:
  "dataChannel st = None \<Longrightarrow> peerConnection st = None \<Longrightarrow> \<not> isSessionActive st \<Longrightarrow>
   stopSession st = st"
  by (simp add: stopSession_def)

lemma opened_returns: "opened dc st = Returns (on_open (dc_opens dc st))"
proof -
  let ?r = "on_open (dc_opens dc st)"
  have r: "events ?r = []" "isSessionActive ?r" by (simp_all add: on_open_def)
  have "run_effects st ?r = Returns ?r"
    using r by (simp add: run_effects_def dispatcher_effect_def session_effect_def snake_effect_def)
  then show ?thesis
    unfolding opened_def by (subst rerender.simps) (simp add: rerender_same)
qed

lemma session0_fields:
  "console session0 = []" "timers session0 = []" "dataChannel session0 = Some 0"
  "events session0 = []" "wire session0 = []" "isSessionActive session0" "\<not> functionAdded session0"
  "readyState session0 0 = Open" "crypto session0 = sample_uuid" "uuids_drawn session0 = 0"
  "sessionUpdate session0 = sessionUpdate_manifest"
  by (simp_all add: session0_def opened_returns on_open_def dc_opens_def startSession_def initial_def)

lemma session1_fields:
  "in_session 0 session1" "functionAdded session1" "events session1 \<noteq> []"
  "readyState session1 0 = Open" "timers session1 = []" "console session1 = []"
  "functionCallOutput session1 = None" "dataChannel session1 = Some 0"
  by (code_simp+)

lemma session2_fields:
  "timers session2 = [\<lparr>captured_dataChannel = Some 0, captured_output = palette_call\<rparr>]"
  "dataChannel session2 = Some 0" "readyState session2 0 = Open"
  by (code_simp+)

section \<open>Stopping a session\<close>

text \<open>
  Claim C5. Stopping a session that was never started returns without an error and
  changes nothing; stopping from any state returns without an error and leaves the
  session closed (not active, no data channel, no peer connection); and stopping again
  from there returns without an error and changes nothing.
\<close>

theorem stop_idempotent:
  "stop (initial uuids) = Returns (initial uuids) \<and>
   (\<exists>st'. stop st = Returns st' \<and> \<not> isSessionActive st' \<and> dataChannel st' = None \<and>
      peerConnection st' = None \<and> stop st' = Returns st')"
  by (simp add: stop_returns stopSession_fields session_effect_fields stopSession_stopped
      initial_def)

text \<open>
  Claim C9, as the code has it. Stopping a session leaves the event history as it was.
  The history is emptied when the data channel of the next session opens.
\<close>

theorem history_kept_by_stop:
  "(\<exists>st'. stop st = Returns st' \<and> events st' = events st) \<and>
   (\<exists>st'. opened dc st = Returns st' \<and> events st' = [])"
  by (simp add: stop_returns stopSession_fields session_effect_fields opened_returns on_open_def)

text \<open>
  Against C9 as stated: a session receives \<^verbatim>\<open>session.created\<close> and is stopped; the history
  is not empty afterwards.
\<close>

theorem history_kept_by_stop_counterexample:
  "events (state_of (stop (state_of (run [Message (Encodes session_created)] session0)))) \<noteq> []"
  by code_simp

section \<open>Sending without an open channel\<close>

text \<open>
  Claim C3, as the code has it. A send while no channel is open is rejected and not
  queued: nothing is transmitted, nothing is added to the events or to the timers. When
  a data channel exists and is not open (it is connecting, or closing, or closed), the
  send of the transport throws and the error reaches the caller of the call. When there
  is no data channel, the failure is written to the console and the call returns
  normally, with the message untouched: no error reaches the caller, and for the
  application as a whole such a send by a component changes the console and nothing else.
\<close>

theorem send_without_channel:
  "sendClientEvent None message st =
     Returns (message, st\<lparr>console := console st @
       [Console_error ''Failed to send message - no data channel available'']\<rparr>) \<and>
   (dataChannel st = None \<longrightarrow>
      step (Send message) st = Returns (st\<lparr>console := console st @
        [Console_error ''Failed to send message - no data channel available'']\<rparr>)) \<and>
   (readyState st c \<noteq> Open \<longrightarrow>
      (\<exists>m' st'. sendClientEvent (Some c) message st = Throws InvalidStateError (m', st') \<and>
         wire st' = wire st \<and> events st' = events st \<and> timers st' = timers st \<and>
         console st' = console st)) \<and>
   (dataChannel st = Some c \<and> readyState st c \<noteq> Open \<longrightarrow>
      (\<exists>st'. handler (Send message) st = Throws InvalidStateError st' \<and>
         wire st' = wire st \<and> events st' = events st \<and> timers st' = timers st))"
proof -
  have 3: "readyState st c \<noteq> Open \<longrightarrow>
      (\<exists>m' st'. sendClientEvent (Some c) message st = Throws InvalidStateError (m', st') \<and>
         wire st' = wire st \<and> events st' = events st \<and> timers st' = timers st \<and>
         console st' = console st)"
    by (auto simp: sendClientEvent_def assign_event_id_def randomUUID_def dc_send_def)
  then have 4: "dataChannel st = Some c \<and> readyState st c \<noteq> Open \<longrightarrow>
      (\<exists>st'. handler (Send message) st = Throws InvalidStateError st' \<and>
         wire st' = wire st \<and> events st' = events st \<and> timers st' = timers st)"
    by auto
  have 12: "sendClientEvent None message st =
     Returns (message, st\<lparr>console := console st @
       [Console_error ''Failed to send message - no data channel available'']\<rparr>) \<and>
   (dataChannel st = None \<longrightarrow>
      step (Send message) st = Returns (st\<lparr>console := console st @
        [Console_error ''Failed to send message - no data channel available'']\<rparr>))"
    by (simp add: sendClientEvent_def step_def rerender_same)
  show ?thesis using 12 3 4 by blast
qed

text \<open>
  Before any session there is no data channel; once \<^verbatim>\<open>startSession\<close> has set one it is
  connecting until it opens.
\<close>

theorem send_without_channel_witness:
  "dataChannel (initial sample_uuid) = None \<and>
   step (Send response_create) (initial sample_uuid) =
     Returns ((initial sample_uuid)\<lparr>console :=
       [Console_error ''Failed to send message - no data channel available'']\<rparr>) \<and>
   wire (state_of (step (Send response_create) (initial sample_uuid))) = [] \<and>
   events (state_of (step (Send response_create) (initial sample_uuid))) = [] \<and>
   dataChannel (startSession 0 0 (initial sample_uuid)) = Some 0 \<and>
   readyState (startSession 0 0 (initial sample_uuid)) 0 \<noteq> Open \<and>
   (\<exists>st'. handler (Send response_create) (startSession 0 0 (initial sample_uuid))
        = Throws InvalidStateError st' \<and>
      wire st' = [] \<and> events st' = [] \<and> timers st' = [])"
proof -
  let ?c = "startSession 0 0 (initial sample_uuid)"
  have h: "dataChannel (initial sample_uuid) = None" by (simp add: initial_def)
  have c: "console (initial sample_uuid) = []" "wire (initial sample_uuid) = []"
      "events (initial sample_uuid) = []"
    by (simp_all add: initial_def)
  have k: "dataChannel ?c = Some 0" "readyState ?c 0 \<noteq> Open"
      "wire ?c = []" "events ?c = []" "timers ?c = []"
    by (simp_all add: startSession_def initial_def)
  have a: "step (Send response_create) (initial sample_uuid) =
     Returns ((initial sample_uuid)\<lparr>console :=
       [Console_error ''Failed to send message - no data channel available'']\<rparr>)"
    using send_without_channel[of response_create "initial sample_uuid"] h c by simp
  have b: "\<exists>st'. handler (Send response_create) ?c = Throws InvalidStateError st' \<and>
      wire st' = [] \<and> events st' = [] \<and> timers st' = []"
    using send_without_channel[of response_create ?c 0] k by simp
  show ?thesis
    using h c k(1,2) a b by simp
qed

text \<open>
  Against C3 as stated: before any session there is no data channel, and a send does not
  throw.
\<close>

theorem send_without_channel_counterexample:
  "dataChannel (initial sample_uuid) = None \<and>
   \<not> throws (sendClientEvent (dataChannel (initial sample_uuid)) response_create
        (initial sample_uuid))"
  by (simp add: initial_def sendClientEvent_def)

section \<open>What a send, a callback and an effect may change\<close>

lemma assign_event_id_frame:
  "assign_event_id m st = (m', st') \<Longrightarrow>
     type m' = type m \<and> events st' = events st \<and> wire st' = wire st \<and>
     isSessionActive st' = isSessionActive st \<and> functionAdded st' = functionAdded st \<and>
     dataChannel st' = dataChannel st \<and> readyState st' = readyState st \<and>
     sessionUpdate st' = sessionUpdate st \<and> timers st' = timers st"
  by (auto simp: assign_event_id_def randomUUID_def split: if_splits)

text \<open>What a call of sendClientEvent may change.\<close>

lemma sendClientEvent_frame:
  assumes "sendClientEvent d m st = X" "state_of X = (m', st')"
  shows "type m' = type m \<and> isSessionActive st' = isSessionActive st \<and>
     functionAdded st' = functionAdded st \<and> dataChannel st' = dataChannel st \<and>
     readyState st' = readyState st \<and> sessionUpdate st' = sessionUpdate st \<and>
     timers st' = timers st \<and>
     ((events st' = events st \<and> wire st' = wire st \<and> (d = None \<or> throws X)) \<or>
      (\<exists>c. d = Some c \<and> readyState st c = Open \<and> \<not> throws X \<and>
           events st' = m' # events st \<and> wire st' = wire st @ [(c, m')]))"
proof (cases d)
  case None
  then show ?thesis using assms by (auto simp: sendClientEvent_def)
next
  case (Some c)
  obtain m1 st1 where a: "assign_event_id m st = (m1, st1)" by (cases "assign_event_id m st")
  note f = assign_event_id_frame[OF a]
  show ?thesis
  proof (cases "readyState st c = Open")
    case True
    then have "X = Returns (m1, st1\<lparr>wire := wire st1 @ [(c, m1)], events := m1 # events st1\<rparr>)"
      using assms(1) Some a f by (simp add: sendClientEvent_def dc_send_def)
    then show ?thesis using assms(2) f Some True by auto
  next
    case False
    then have "X = Throws InvalidStateError (m1, st1)"
      using assms(1) Some a f by (simp add: sendClientEvent_def dc_send_def)
    then show ?thesis using assms(2) f Some by auto
  qed
qed


lemma sendClientEvent_open:
  assumes "readyState st c = Open"
  shows "\<exists>m' st'. sendClientEvent (Some c) m st = Returns (m', st') \<and> type m' = type m \<and>
     isSessionActive st' = isSessionActive st \<and> functionAdded st' = functionAdded st \<and>
     dataChannel st' = dataChannel st \<and> readyState st' = readyState st \<and>
     sessionUpdate st' = sessionUpdate st \<and> timers st' = timers st \<and>
     events st' = m' # events st \<and> wire st' = wire st @ [(c, m')]"
proof -
  obtain m1 st1 where a: "assign_event_id m st = (m1, st1)" by (cases "assign_event_id m st")
  note f = assign_event_id_frame[OF a]
  have "sendClientEvent (Some c) m st
      = Returns (m1, st1\<lparr>wire := wire st1 @ [(c, m1)], events := m1 # events st1\<rparr>)"
    using assms a f by (simp add: sendClientEvent_def dc_send_def)
  then show ?thesis using f by simp
qed

lemma fold_function_call_channel:
  "dataChannel (fold (function_call r) outs st) = dataChannel st \<and>
   readyState (fold (function_call r) outs st) = readyState st \<and>
   sessionUpdate (fold (function_call r) outs st) = sessionUpdate st"
  by (induction outs arbitrary: st)
     (auto simp: function_call_def caught_def Let_def split: option.splits sum.splits)

lemma route_frame:
  "events (state_of (route r st)) = events st \<and> wire (state_of (route r st)) = wire st \<and>
   isSessionActive (state_of (route r st)) = isSessionActive st \<and>
   functionAdded (state_of (route r st)) = functionAdded st \<and>
   dataChannel (state_of (route r st)) = dataChannel st \<and>
   readyState (state_of (route r st)) = readyState st \<and>
   sessionUpdate (state_of (route r st)) = sessionUpdate st"
  by (simp add: route_def Let_def fold_function_call_keeps fold_function_call_channel
      split: option.splits)

lemma snake_effect_frame:
  "events (snake_effect r st) = events st \<and> wire (snake_effect r st) = wire st \<and>
   isSessionActive (snake_effect r st) = isSessionActive st \<and>
   functionAdded (snake_effect r st) = functionAdded st \<and>
   dataChannel (snake_effect r st) = dataChannel st \<and>
   readyState (snake_effect r st) = readyState st \<and>
   sessionUpdate (snake_effect r st) = sessionUpdate st"
  by (simp add: snake_effect_def split: list.splits)

lemma uncaught_frame:
  "events (uncaught X) = events (state_of X) \<and> wire (uncaught X) = wire (state_of X) \<and>
   isSessionActive (uncaught X) = isSessionActive (state_of X) \<and>
   functionAdded (uncaught X) = functionAdded (state_of X) \<and>
   dataChannel (uncaught X) = dataChannel (state_of X) \<and>
   readyState (uncaught X) = readyState (state_of X) \<and>
   sessionUpdate (uncaught X) = sessionUpdate (state_of X)"
  by (cases X) simp_all

text \<open>What a listener or timer callback may change.\<close>

lemma handler_frame:
  fixes a st
  defines "s \<equiv> uncaught (handler a st)"
  shows "isSessionActive s = isSessionActive st \<and> functionAdded s = functionAdded st \<and>
     dataChannel s = dataChannel st \<and> readyState s = readyState st \<and>
     sessionUpdate s = sessionUpdate st \<and>
     ((events s = events st \<and> wire s = wire st) \<or>
      (\<exists>m. events s = m # events st \<and> wire s = wire st \<and> a = Message (Encodes m)) \<or>
      (\<exists>c m. events s = m # events st \<and> wire s = wire st @ [(c, m)] \<and>
          (case a of Send m0 \<Rightarrow> type m = type m0 | _ \<Rightarrow> type m = Some ''response.create'')))"
proof (cases a)
  case (Message data)
  then show ?thesis
    unfolding s_def by (cases data) (simp_all add: on_message_def)
next
  case (Send m0)
  obtain X where X: "sendClientEvent (dataChannel st) m0 st = X" by simp
  obtain m' st' where p: "state_of X = (m', st')" by (cases "state_of X")
  have h: "state_of (handler a st) = st'"
    using Send X p by (cases X) auto
  show ?thesis
    unfolding s_def using sendClientEvent_frame[OF X p] uncaught_frame[of "handler a st"] h Send
    by auto
next
  case Timeout
  show ?thesis
  proof (cases "timers st")
    case Nil
    then show ?thesis unfolding s_def using Timeout by simp
  next
    case (Cons t ts)
    obtain X where X: "sendClientEvent (captured_dataChannel t) (follow_up (captured_output t))
        (st\<lparr>timers := ts\<rparr>) = X" by simp
    obtain m' st' where p: "state_of X = (m', st')" by (cases "state_of X")
    have h: "state_of (handler a st) = st'"
      using Timeout Cons X p by (cases X) auto
    have "type (follow_up (captured_output t)) = Some ''response.create''"
      by (simp add: follow_up_def)
    then show ?thesis
      unfolding s_def
      using sendClientEvent_frame[OF X p] uncaught_frame[of "handler a st"] h Timeout
      by auto
  qed
qed


section \<open>The event list is newest first\<close>

lemma register_events:
  "suffix (events st) (events (state_of (register r st)))"
proof (cases "\<not> functionAdded r \<and> type (last (events r)) = Some ''session.created''")
  case False
  then show ?thesis by (auto simp: register_def)
next
  case True
  obtain X where X: "sendClientEvent (dataChannel r) (sessionUpdate st) st = X" by simp
  obtain m' st' where p: "state_of X = (m', st')" by (cases "state_of X")
  have "suffix (events st) (events st')"
    using sendClientEvent_frame[OF X p] by (auto simp: suffix_Cons)
  then show ?thesis
    using True X p by (cases X) (auto simp: register_def)
qed

lemma run_effects_events:
  "suffix (events r) (events (state_of (run_effects prev r)))"
proof -
  have d: "suffix (events r) (events (state_of (dispatcher_effect r r)))"
  proof (cases "register r r")
    case (Returns st1)
    then show ?thesis
      using register_events[of r r] route_frame[of r st1] by (simp add: dispatcher_effect_def)
  next
    case (Throws e st1)
    then show ?thesis
      using register_events[of r r] by (simp add: dispatcher_effect_def)
  qed
  show ?thesis
  proof (cases "events prev \<noteq> events r")
    case False
    then show ?thesis by (simp add: run_effects_def session_effect_fields)
  next
    case True
    then show ?thesis
      using d snake_effect_frame[of r]
      by (cases "dispatcher_effect r r")
         (simp_all add: run_effects_def session_effect_fields Let_def)
  qed
qed

lemma rerender_events:
  "suffix (events r) (events (state_of (rerender prev r)))"
proof (induction prev r rule: rerender.induct)
  case (1 prev r)
  show ?case
  proof (cases "events prev = events r \<and> isSessionActive prev = isSessionActive r")
    case True
    then show ?thesis by (simp add: rerender_same)
  next
    case False
    show ?thesis
    proof (cases "run_effects prev r")
      case (Returns st)
      have "suffix (events r) (events st)" using run_effects_events[of r prev] Returns by simp
      moreover have "suffix (events st) (events (state_of (rerender r st)))"
        using "1.IH"[OF False Returns] .
      moreover have "rerender prev r = rerender r st"
        by (subst rerender.simps) (simp add: False Returns)
      ultimately show ?thesis by (auto intro: suffix_order.trans)
    next
      case (Throws e st)
      have "rerender prev r = Throws e st"
        by (subst rerender.simps) (simp add: False Throws)
      then show ?thesis using run_effects_events[of r prev] Throws by simp
    qed
  qed
qed

lemma step_events: "suffix (events st) (events (state_of (step a st)))"
proof -
  have "suffix (events st) (events (uncaught (handler a st)))"
    using handler_frame[of a st] by (auto simp: suffix_Cons)
  then show ?thesis
    unfolding step_def using rerender_events suffix_order.trans by blast
qed

lemma run_events: "suffix (events st) (events (state_of (run as st)))"
proof (induction as arbitrary: st)
  case Nil
  then show ?case by simp
next
  case (Cons a as)
  show ?case
  proof (cases "step a st")
    case (Returns st1)
    then show ?thesis
      using step_events[of st a] Cons.IH[of st1] by (auto intro: suffix_order.trans)
  next
    case (Throws e st1)
    then show ?thesis using step_events[of st a] by simp
  qed
qed

text \<open>
  Claim C10. A send on an open channel puts the message, as transmitted, at the head of
  the event list, and so does the receipt of a message that decodes. Whatever happens
  next (messages, sends, timers, the effects they cause), the list only grows at its
  head: the entries it had stay at its end in their order, and its last entry, the
  oldest, stays the last.
\<close>

theorem events_newest_first:
  "(readyState st c = Open \<longrightarrow>
      (\<exists>m' st'. sendClientEvent (Some c) m st = Returns (m', st') \<and> events st' = m' # events st)) \<and>
   events (on_message (Encodes d) st) = d # events st \<and>
   suffix (events st) (events (state_of (run as st))) \<and>
   (events st \<noteq> [] \<longrightarrow> last (events (state_of (run as st))) = last (events st))"
proof -
  have "readyState st c = Open \<Longrightarrow>
      \<exists>m' st'. sendClientEvent (Some c) m st = Returns (m', st') \<and> events st' = m' # events st"
    using sendClientEvent_open[of st c m] by blast
  moreover have "events st \<noteq> [] \<Longrightarrow> last (events (state_of (run as st))) = last (events st)"
    using run_events[of st as] by (auto simp: suffix_def)
  ultimately show ?thesis
    using run_events[of st as] by (simp add: on_message_def)
qed

text \<open>
  In the session that has received \<^verbatim>\<open>session.created\<close> and registered, a send: the list
  is the sent event, the registration, \<^verbatim>\<open>session.created\<close>.
\<close>

theorem events_newest_first_witness:
  "readyState session1 0 = Open \<and> events session1 \<noteq> [] \<and>
   (\<exists>m' st'. sendClientEvent (Some 0) response_create session1 = Returns (m', st') \<and>
      events st' = m' # events session1) \<and>
   suffix (events session1) (events (state_of (run [Send response_create] session1))) \<and>
   last (events (state_of (run [Send response_create] session1))) = session_created \<and>
   map type (events (state_of (run [Send response_create] session1)))
     = [Some ''response.create'', Some ''session.update'', Some ''session.created'']"
proof -
  have h1: "readyState session1 0 = Open" and h2: "events session1 \<noteq> []"
    by (simp_all add: session1_fields)
  have h3: "last (events session1) = session_created" by code_simp
  have h4: "map type (events (state_of (run [Send response_create] session1)))
     = [Some ''response.create'', Some ''session.update'', Some ''session.created'']"
    by code_simp
  show ?thesis
    using events_newest_first[of session1 0 response_create session_created
        "[Send response_create]"] h1 h2 h3 h4
    by simp
qed

section \<open>Registration\<close>

lemma session_step_refl: "session_step c a a"
  by (simp add: session_step_def)

lemma suffix_last: "suffix xs ys \<Longrightarrow> xs \<noteq> [] \<Longrightarrow> ys \<noteq> [] \<and> last ys = last xs"
  by (auto simp: suffix_def)

lemma session_step_trans:
  assumes "session_step c a b" and "session_step c b d"
  shows "session_step c a d"
proof (cases "in_session c a")
  case False
  then show ?thesis by (simp add: session_step_def)
next
  case True
  then have ab: "in_session c b" "suffix (events a) (events b)"
      "registrations a \<le> registrations b" "quota b \<le> quota a"
      "events a \<noteq> [] \<and> type (last (events a)) \<noteq> Some ''session.created'' \<longrightarrow>
         registrations b = registrations a"
    using assms(1) by (simp_all add: session_step_def)
  then have bd: "in_session c d" "suffix (events b) (events d)"
      "registrations b \<le> registrations d" "quota d \<le> quota b"
      "events b \<noteq> [] \<and> type (last (events b)) \<noteq> Some ''session.created'' \<longrightarrow>
         registrations d = registrations b"
    using assms(2) by (simp_all add: session_step_def)
  have "events a \<noteq> [] \<and> type (last (events a)) \<noteq> Some ''session.created'' \<longrightarrow>
         registrations d = registrations a"
    using ab(2,5) bd(5) suffix_last[of "events a" "events b"] by auto
  moreover have "suffix (events a) (events d)"
    using ab(2) bd(2) by (rule suffix_order.trans)
  ultimately show ?thesis
    using ab bd by (simp add: session_step_def)
qed

lemma registrations_append:
  "wire b = wire a @ [(c, m)] \<Longrightarrow>
   registrations b = registrations a + (if type m = Some ''session.update'' then 1 else 0)"
  by (simp add: registrations_def)

lemma registrations_same: "wire b = wire a \<Longrightarrow> registrations b = registrations a"
  by (simp add: registrations_def)

lemma register_session_step:
  assumes "in_session c r"
  shows "session_step c r (state_of (register r r))"
proof (cases "\<not> functionAdded r \<and> type (last (events r)) = Some ''session.created''")
  case False
  then have "register r r = Returns r" by (auto simp: register_def)
  then show ?thesis by (simp add: session_step_refl)
next
  case True
  have o: "readyState r c = Open" "dataChannel r = Some c" "type (sessionUpdate r) = Some ''session.update''"
    using assms by (simp_all add: in_session_def)
  obtain m' st' where s: "sendClientEvent (Some c) (sessionUpdate r) r = Returns (m', st')"
     "type m' = type (sessionUpdate r)"
     "isSessionActive st' = isSessionActive r" "functionAdded st' = functionAdded r"
     "dataChannel st' = dataChannel r" "readyState st' = readyState r"
     "events st' = m' # events r" "wire st' = wire r @ [(c, m')]"
    using sendClientEvent_open[OF o(1), of "sessionUpdate r"] by blast
  have r: "register r r = Returns (st'\<lparr>sessionUpdate := m', functionAdded := True\<rparr>)"
    using True s(1) o(2) by (simp add: register_def)
  have "registrations (st'\<lparr>sessionUpdate := m', functionAdded := True\<rparr>) = registrations r + 1"
    using registrations_append[of "st'\<lparr>sessionUpdate := m', functionAdded := True\<rparr>" r c m'] s o
    by simp
  then show ?thesis
    using True r s o assms
    by (simp add: session_step_def in_session_def quota_def suffix_ConsI)
qed

lemma route_session_step: "session_step c st (state_of (route r st))"
  using route_frame[of r st]
  by (simp add: session_step_def in_session_def quota_def registrations_def)

lemma snake_session_step: "session_step c st (snake_effect r st)"
  using snake_effect_frame[of r st]
  by (simp add: session_step_def in_session_def quota_def registrations_def)

lemma dispatcher_session_step:
  assumes "in_session c r"
  shows "session_step c r (state_of (dispatcher_effect r r))"
proof (cases "events r = []")
  case True
  then show ?thesis by (simp add: dispatcher_effect_def session_step_refl)
next
  case False
  show ?thesis
  proof (cases "register r r")
    case (Returns st1)
    then have "session_step c r st1" using register_session_step[OF assms] by simp
    moreover have "session_step c st1 (state_of (route r st1))" by (rule route_session_step)
    ultimately show ?thesis
      using False Returns by (auto simp: dispatcher_effect_def intro: session_step_trans)
  next
    case (Throws e st1)
    then show ?thesis
      using False register_session_step[OF assms] by (simp add: dispatcher_effect_def)
  qed
qed

lemma run_effects_session_step:
  assumes "isSessionActive prev = isSessionActive r"
  shows "session_step c r (state_of (run_effects prev r))"
proof (cases "in_session c r")
  case False
  then show ?thesis by (simp add: session_step_def)
next
  case True
  show ?thesis
  proof (cases "events prev = events r")
    case True
    then show ?thesis using assms by (simp add: run_effects_def session_step_refl)
  next
    case False
    show ?thesis
    proof (cases "dispatcher_effect r r")
      case (Returns st)
      then have "session_step c r st" using dispatcher_session_step[OF True] by simp
      moreover have "session_step c st (snake_effect r st)" by (rule snake_session_step)
      ultimately show ?thesis
        using False Returns assms by (auto simp: run_effects_def intro: session_step_trans)
    next
      case (Throws e st)
      then show ?thesis
        using False dispatcher_session_step[OF True] by (simp add: run_effects_def)
    qed
  qed
qed

lemma register_active:
  "isSessionActive (state_of (register r st)) = isSessionActive st"
proof (cases "\<not> functionAdded r \<and> type (last (events r)) = Some ''session.created''")
  case False
  then show ?thesis by (auto simp: register_def)
next
  case True
  obtain X where X: "sendClientEvent (dataChannel r) (sessionUpdate st) st = X" by simp
  obtain m' st' where p: "state_of X = (m', st')" by (cases "state_of X")
  have "isSessionActive st' = isSessionActive st"
    using sendClientEvent_frame[OF X p] by simp
  then show ?thesis
    using True X p by (cases X) (auto simp: register_def)
qed

lemma run_effects_active:
  "isSessionActive (state_of (run_effects prev r)) = isSessionActive r"
proof -
  have d: "isSessionActive (state_of (dispatcher_effect r r)) = isSessionActive r"
  proof (cases "register r r")
    case (Returns st1)
    then show ?thesis
      using register_active[of r r] route_frame[of r st1] by (simp add: dispatcher_effect_def)
  next
    case (Throws e st1)
    then show ?thesis
      using register_active[of r r] by (simp add: dispatcher_effect_def)
  qed
  show ?thesis
  proof (cases "events prev \<noteq> events r")
    case False
    then show ?thesis by (simp add: run_effects_def session_effect_def)
  next
    case True
    then show ?thesis
      using d snake_effect_frame[of r]
      by (cases "dispatcher_effect r r") (simp_all add: run_effects_def session_effect_def Let_def)
  qed
qed

lemma rerender_session_step:
  "isSessionActive prev = isSessionActive r \<Longrightarrow> session_step c r (state_of (rerender prev r))"
proof (induction prev r rule: rerender.induct)
  case (1 prev r)
  show ?case
  proof (cases "events prev = events r \<and> isSessionActive prev = isSessionActive r")
    case True
    then show ?thesis by (simp add: rerender_same session_step_refl)
  next
    case False
    show ?thesis
    proof (cases "run_effects prev r")
      case (Returns st)
      have a: "isSessionActive r = isSessionActive st"
        using run_effects_active[of prev r] Returns by simp
      have "session_step c r st" using run_effects_session_step[OF "1.prems", of c] Returns by simp
      moreover have "session_step c st (state_of (rerender r st))"
        using "1.IH"[OF False Returns a] .
      moreover have "rerender prev r = rerender r st"
        by (subst rerender.simps) (simp add: False Returns)
      ultimately show ?thesis by (auto intro: session_step_trans)
    next
      case (Throws e st)
      have "rerender prev r = Throws e st"
        by (subst rerender.simps) (simp add: False Throws)
      then show ?thesis using run_effects_session_step[OF "1.prems", of c] Throws by simp
    qed
  qed
qed


lemma handler_session_step:
  assumes "\<not> sends_manifest a"
  shows "session_step c st (uncaught (handler a st))"
proof -
  let ?s = "uncaught (handler a st)"
  note f = handler_frame[of a st]
  have "registrations ?s = registrations st"
  proof -
    from f consider "wire ?s = wire st"
      | c m where "wire ?s = wire st @ [(c, m)]"
          "(case a of Send m0 \<Rightarrow> type m = type m0 | _ \<Rightarrow> type m = Some ''response.create'')"
      by blast
    then show ?thesis
    proof cases
      case 1
      then show ?thesis by (rule registrations_same)
    next
      case 2
      then have "type m \<noteq> Some ''session.update''"
        using assms by (cases a) (auto simp: sends_manifest_def)
      then show ?thesis using registrations_append[OF 2(1)] by simp
    qed
  qed
  moreover have "suffix (events st) (events ?s)"
    using f by (auto simp: suffix_ConsI)
  ultimately show ?thesis
    using f by (simp add: session_step_def in_session_def quota_def)
qed

lemma step_session_step:
  assumes "\<not> sends_manifest a"
  shows "session_step c st (state_of (step a st))"
proof -
  have "isSessionActive st = isSessionActive (uncaught (handler a st))"
    using handler_frame[of a st] by simp
  then have "session_step c (uncaught (handler a st)) (state_of (step a st))"
    unfolding step_def by (rule rerender_session_step)
  then show ?thesis
    using handler_session_step[OF assms] by (blast intro: session_step_trans)
qed

lemma run_session_step:
  assumes "\<not> list_ex sends_manifest as"
  shows "session_step c st (state_of (run as st))"
  using assms
proof (induction as arbitrary: st)
  case Nil
  then show ?case by (simp add: session_step_refl)
next
  case (Cons a as)
  then have a: "\<not> sends_manifest a" and as: "\<not> list_ex sends_manifest as" by simp_all
  show ?case
  proof (cases "step a st")
    case (Returns st1)
    then show ?thesis
      using step_session_step[OF a, of c st] Cons.IH[OF as, of st1]
      by (auto intro: session_step_trans)
  next
    case (Throws e st1)
    then show ?thesis using step_session_step[OF a, of c st] by simp
  qed
qed

text \<open>The first event of a session is \<^verbatim>\<open>session.created\<close>: one registration, at once.\<close>

lemma first_created_registers:
  assumes "in_session c st" "events st = []" "\<not> functionAdded st" "type d = Some ''session.created''"
  shows "\<exists>st1. step (Message (Encodes d)) st = Returns st1 \<and> in_session c st1 \<and>
           functionAdded st1 \<and> registrations st1 = registrations st + 1"
proof -
  let ?r = "on_message (Encodes d) st"
  have r: "events ?r = [d]" "in_session c ?r" "\<not> functionAdded ?r" "isSessionActive ?r = isSessionActive st"
      "registrations ?r = registrations st"
    using assms by (simp_all add: on_message_def in_session_def registrations_def)
  have o: "readyState ?r c = Open" "dataChannel ?r = Some c"
    using r(2) by (simp_all add: in_session_def)
  obtain m' st' where s: "sendClientEvent (Some c) (sessionUpdate ?r) ?r = Returns (m', st')"
     "type m' = type (sessionUpdate ?r)"
     "isSessionActive st' = isSessionActive ?r" "functionAdded st' = functionAdded ?r"
     "dataChannel st' = dataChannel ?r" "readyState st' = readyState ?r"
     "events st' = m' # events ?r" "wire st' = wire ?r @ [(c, m')]"
    using sendClientEvent_open[OF o(1), of "sessionUpdate ?r"] by blast
  let ?st1 = "st'\<lparr>sessionUpdate := m', functionAdded := True\<rparr>"
  have t: "type m' = Some ''session.update''"
    using s(2) r(2) by (simp add: in_session_def)
  have reg: "register ?r ?r = Returns ?st1"
    using r(1,3) assms(4) s(1) o(2) by (simp add: register_def)
  have route: "route ?r ?st1 = Returns ?st1"
    using r(1) assms(4) by (simp add: route_def)
  have snake: "snake_effect ?r ?st1 = ?st1"
    using r(1) assms(4) by (simp add: snake_effect_def)
  have eff: "run_effects st ?r = Returns ?st1"
    using r(1,4) assms(2) reg route snake
    by (simp add: run_effects_def dispatcher_effect_def)
  have st1: "in_session c ?st1" "functionAdded ?st1" "registrations ?st1 = registrations st + 1"
    using s t r(2,5) registrations_append[of ?st1 ?r c m']
    by (simp_all add: in_session_def)
  have act: "isSessionActive ?r = isSessionActive ?st1" using s(3) by simp
  have step: "step (Message (Encodes d)) st = rerender ?r ?st1"
    unfolding step_def using eff r(1) assms(2)
    by (subst rerender.simps) simp
  have ss: "session_step c ?st1 (state_of (rerender ?r ?st1))"
    using act by (rule rerender_session_step)
  have same: "events ?r \<noteq> events ?st1" using s(7) by simp
  have eff2: "run_effects ?r ?st1 = Returns ?st1"
  proof -
    have "register ?st1 ?st1 = Returns ?st1" by (simp add: register_def)
    moreover have "route ?st1 ?st1 = Returns ?st1"
      using s(7) t by (simp add: route_def)
    moreover have "snake_effect ?st1 ?st1 = ?st1"
      using s(7) t by (simp add: snake_effect_def)
    ultimately show ?thesis
      using same act s(7) by (simp add: run_effects_def dispatcher_effect_def)
  qed
  have "rerender ?r ?st1 = Returns ?st1"
    using same eff2 by (subst rerender.simps) (simp add: rerender_same)
  then show ?thesis using step st1 by simp
qed
text \<open>
  Claim C1, as the code has it. In a session, whatever arrives, is sent or fires (the
  other components sending no \<^verbatim>\<open>session.update\<close> of their own), the dispatcher transmits
  at most one registration, and none once the flag is up; the flag, once up, stays up.
  The dispatcher registers when the oldest entry of the event list is
  \<^verbatim>\<open>session.created\<close>: if that is the first event of the session, exactly one registration
  is transmitted and the flag is up, whatever follows, further \<^verbatim>\<open>session.created\<close> events
  included; if the oldest entry is another event, no registration is transmitted,
  whatever follows. Stopping the session brings the flag down.
\<close>

theorem registration_once:
  assumes "in_session c st" and "\<not> list_ex sends_manifest as"
  shows "registrations (state_of (run as st))
           \<le> registrations st + (if functionAdded st then 0 else 1) \<and>
         (functionAdded st \<longrightarrow> functionAdded (state_of (run as st))) \<and>
         (events st = [] \<and> \<not> functionAdded st \<and> type d = Some ''session.created'' \<longrightarrow>
            registrations (state_of (run (Message (Encodes d) # as) st)) = registrations st + 1 \<and>
            functionAdded (state_of (run (Message (Encodes d) # as) st))) \<and>
         (events st \<noteq> [] \<and> type (last (events st)) \<noteq> Some ''session.created'' \<longrightarrow>
            registrations (state_of (run as st)) = registrations st) \<and>
         (\<exists>st'. stop st = Returns st' \<and> \<not> functionAdded st')"
proof -
  have s: "session_step c st (state_of (run as st))"
    using assms(2) by (rule run_session_step)
  then have q: "registrations st \<le> registrations (state_of (run as st))"
      "quota (state_of (run as st)) \<le> quota st"
    and 5: "events st \<noteq> [] \<and> type (last (events st)) \<noteq> Some ''session.created'' \<longrightarrow>
            registrations (state_of (run as st)) = registrations st"
    using assms(1) by (simp_all add: session_step_def)
  have 1: "registrations (state_of (run as st))
           \<le> registrations st + (if functionAdded st then 0 else 1)"
    using q by (simp add: quota_def split: if_splits)
  have 2: "functionAdded st \<longrightarrow> functionAdded (state_of (run as st))"
    using q by (simp add: quota_def split: if_splits)
  have 3: "events st = [] \<and> \<not> functionAdded st \<and> type d = Some ''session.created'' \<longrightarrow>
            registrations (state_of (run (Message (Encodes d) # as) st)) = registrations st + 1 \<and>
            functionAdded (state_of (run (Message (Encodes d) # as) st))"
  proof (intro impI, elim conjE)
    assume a: "events st = []" "\<not> functionAdded st" "type d = Some ''session.created''"
    obtain st1 where st1: "step (Message (Encodes d)) st = Returns st1" "in_session c st1"
        "functionAdded st1" "registrations st1 = registrations st + 1"
      using first_created_registers[OF assms(1) a] by blast
    have "session_step c st1 (state_of (run as st1))"
      using assms(2) by (rule run_session_step)
    then have "registrations st1 \<le> registrations (state_of (run as st1))"
        "quota (state_of (run as st1)) \<le> quota st1"
      using st1(2) by (simp_all add: session_step_def)
    then have "registrations (state_of (run as st1)) = registrations st1 \<and>
        functionAdded (state_of (run as st1))"
      using st1(3) by (simp add: quota_def split: if_splits)
    then show "registrations (state_of (run (Message (Encodes d) # as) st)) = registrations st + 1 \<and>
            functionAdded (state_of (run (Message (Encodes d) # as) st))"
      using st1(1,4) by simp
  qed
  have 4: "\<exists>st'. stop st = Returns st' \<and> \<not> functionAdded st'"
    using assms(1) by (simp add: stop_returns in_session_def session_effect_def stopSession_fields)
  show ?thesis using 1 2 3 4 5 by blast
qed

text \<open>
  Two \<^verbatim>\<open>session.created\<close> in a fresh session, then a palette and its follow-up: one
  registration. The same in a session that has registered: none is added.
\<close>

theorem registration_once_witness:
  "in_session 0 session0 \<and> events session0 = [] \<and> \<not> functionAdded session0 \<and>
   type session_created = Some ''session.created'' \<and>
   \<not> list_ex sends_manifest [Message (Encodes session_created),
        Message (Encodes (response_done [palette_call])), Timeout] \<and>
   registrations (state_of (run (Message (Encodes session_created) #
        [Message (Encodes session_created),
         Message (Encodes (response_done [palette_call])), Timeout]) session0)) = 1 \<and>
   in_session 0 session1 \<and> functionAdded session1 \<and>
   registrations (state_of (run [Message (Encodes session_created),
        Message (Encodes (response_done [palette_call])), Timeout] session1)) \<le> 1 \<and>
   functionAdded (state_of (run [Message (Encodes session_created),
        Message (Encodes (response_done [palette_call])), Timeout] session1)) \<and>
   (\<exists>st'. stop session1 = Returns st' \<and> \<not> functionAdded st') \<and>
   in_session 0 (state_of (run [Send response_create] session0)) \<and>
   events (state_of (run [Send response_create] session0)) \<noteq> [] \<and>
   type (last (events (state_of (run [Send response_create] session0))))
     \<noteq> Some ''session.created'' \<and>
   registrations (state_of (run [Message (Encodes session_created),
        Message (Encodes (response_done [palette_call])), Timeout]
        (state_of (run [Send response_create] session0)))) = 0"
proof -
  let ?as = "[Message (Encodes session_created),
        Message (Encodes (response_done [palette_call])), Timeout]"
  let ?late = "state_of (run [Send response_create] session0)"
  have h1: "in_session 0 session0"
    by (simp add: in_session_def session0_fields sessionUpdate_manifest_def)
  have h2: "\<not> list_ex sends_manifest ?as" by (simp add: sends_manifest_def)
  have h3: "events session0 = []" "\<not> functionAdded session0"
      "type session_created = Some ''session.created''"
    by (simp_all add: session0_fields session_created_def)
  have h4: "in_session 0 session1" "functionAdded session1"
    by (simp_all add: session1_fields)
  have h5: "in_session 0 ?late" "events ?late \<noteq> []"
      "type (last (events ?late)) \<noteq> Some ''session.created''" "registrations ?late = 0"
    by (code_simp+)
  have r0: "registrations session0 = 0" by (simp add: registrations_def session0_fields)
  have r1: "registrations session1 = 1" by code_simp
  have a: "registrations (state_of (run (Message (Encodes session_created) # ?as) session0)) = 1"
    using registration_once[OF h1 h2, of session_created] h3 r0 by simp
  have b: "registrations (state_of (run ?as session1)) \<le> 1 \<and>
      functionAdded (state_of (run ?as session1)) \<and>
      (\<exists>st'. stop session1 = Returns st' \<and> \<not> functionAdded st')"
    using registration_once[OF h4(1) h2, of session_created] h4(2) r1 by simp
  have c: "registrations (state_of (run ?as ?late)) = 0"
    using registration_once[OF h5(1) h2, of session_created] h5(2-4) by simp
  show ?thesis
    using h1 h2 h3 h4 h5(1-3) a b c by simp
qed

text \<open>
  Against C1 as stated: another component sends before \<^verbatim>\<open>session.created\<close> arrives. The
  oldest entry of the list is then the sent event, and neither this \<^verbatim>\<open>session.created\<close>
  nor a second one is answered by a registration.
\<close>

theorem registration_once_counterexample:
  "registrations (state_of (run [Send response_create, Message (Encodes session_created),
      Message (Encodes session_created)] session0)) = 0 \<and>
   \<not> functionAdded (state_of (run [Send response_create, Message (Encodes session_created),
      Message (Encodes session_created)] session0)) \<and>
   map type (events (state_of (run [Send response_create, Message (Encodes session_created),
      Message (Encodes session_created)] session0)))
     = [Some ''session.created'', Some ''session.created'', Some ''response.create'']"
  by code_simp

section \<open>Pending follow-ups when the session stops\<close>

text \<open>A timer that fires with a channel that is not open: its send throws.\<close>

lemma timeout_throws:
  assumes "readyState st c \<noteq> Open" and "timers st = t # ts"
    and "captured_dataChannel t = Some c"
  shows "handler Timeout st = Throws InvalidStateError
           (st\<lparr>timers := ts, uuids_drawn := Suc (uuids_drawn st)\<rparr>)"
  using assms
  by (simp add: sendClientEvent_def assign_event_id_def randomUUID_def dc_send_def
      follow_up_def truthy_def)

lemma timeout_on_closed:
  assumes "readyState st c \<noteq> Open" and "timers st = t # ts"
    and "captured_dataChannel t = Some c"
  shows "\<exists>s. step Timeout st = Returns s \<and> wire s = wire st \<and> events s = events st \<and>
           timers s = ts \<and> readyState s = readyState st"
proof -
  let ?s = "uncaught (handler Timeout st)"
  have h: "handler Timeout st = Throws InvalidStateError
           (st\<lparr>timers := ts, uuids_drawn := Suc (uuids_drawn st)\<rparr>)"
    by (rule timeout_throws[OF assms])
  have "?s = st\<lparr>timers := ts, uuids_drawn := Suc (uuids_drawn st),
      console := console st @ [Console_error ''Uncaught'']\<rparr>"
    unfolding h by simp
  then have f: "wire ?s = wire st" "events ?s = events st" "timers ?s = ts"
      "readyState ?s = readyState st" "isSessionActive ?s = isSessionActive st"
    by simp_all
  then have "step Timeout st = Returns ?s"
    unfolding step_def by (simp add: rerender_same)
  then show ?thesis using f by simp
qed

lemma timeouts_on_closed:
  assumes "readyState st c \<noteq> Open"
    and "list_all (\<lambda>t. captured_dataChannel t = Some c) (timers st)"
  shows "wire (state_of (run (replicate n Timeout) st)) = wire st \<and>
         events (state_of (run (replicate n Timeout) st)) = events st"
  using assms
proof (induction n arbitrary: st)
  case 0
  then show ?case by simp
next
  case (Suc n)
  show ?case
  proof (cases "timers st")
    case Nil
    then have "step Timeout st = Returns st"
      by (simp add: step_def rerender_same)
    then show ?thesis using Suc.IH[OF Suc.prems] by simp
  next
    case (Cons t ts)
    then have t: "captured_dataChannel t = Some c"
        and ts: "list_all (\<lambda>t. captured_dataChannel t = Some c) ts"
      using Suc.prems(2) by simp_all
    obtain s where s: "step Timeout st = Returns s" "wire s = wire st" "events s = events st"
        "timers s = ts" "readyState s = readyState st"
      using timeout_on_closed[OF Suc.prems(1) Cons t] by blast
    have "wire (state_of (run (replicate n Timeout) s)) = wire s \<and>
         events (state_of (run (replicate n Timeout) s)) = events s"
      using Suc.IH[of s] Suc.prems(1) ts s(4,5) by simp
    then show ?thesis using s(1-3) by simp
  qed
qed

text \<open>
  Claim C7, as the code has it. Stopping cancels nothing: the timers pending before are
  pending after. A follow-up scheduled in the session that is stopped fires later and
  calls the \<^verbatim>\<open>sendClientEvent\<close> it captured; the channel of that call is the one that was
  closed, so the call throws. However many of these timers fire after the stop, nothing
  is transmitted or added to the events.
\<close>

theorem stop_keeps_timers:
  "(\<exists>st'. stop st = Returns st' \<and> timers st' = timers st) \<and>
   (timers st = t # ts \<and> dataChannel st = Some c \<and> captured_dataChannel t = Some c \<longrightarrow>
      (\<exists>st' s. stop st = Returns st' \<and> handler Timeout st' = Throws InvalidStateError s \<and>
         timers s = ts \<and> wire s = wire st \<and> events s = events st)) \<and>
   (dataChannel st = Some c \<and>
    list_all (\<lambda>t. captured_dataChannel t = Some c) (timers st) \<longrightarrow>
      (\<exists>st'. stop st = Returns st' \<and>
         wire (state_of (run (replicate n Timeout) st')) = wire st \<and>
         events (state_of (run (replicate n Timeout) st')) = events st))"
proof -
  let ?st' = "if isSessionActive st
     then session_effect (stopSession st) (stopSession st) else stopSession st"
  have f: "timers ?st' = timers st" "wire ?st' = wire st" "events ?st' = events st"
    by (simp_all add: stopSession_fields session_effect_fields)
  have closed: "readyState ?st' c \<noteq> Open" if "dataChannel st = Some c"
  proof -
    have "readyState (stopSession st) c \<noteq> Open"
      using that
      by (simp add: stopSession_def Let_def dc_close_def pc_close_def split: option.splits)
    then show ?thesis by (simp add: session_effect_fields)
  qed
  have 1: "\<exists>st'. stop st = Returns st' \<and> timers st' = timers st"
    using f by (simp add: stop_returns)
  have 2: "timers st = t # ts \<and> dataChannel st = Some c \<and> captured_dataChannel t = Some c \<longrightarrow>
      (\<exists>st' s. stop st = Returns st' \<and> handler Timeout st' = Throws InvalidStateError s \<and>
         timers s = ts \<and> wire s = wire st \<and> events s = events st)"
  proof (intro impI, elim conjE)
    assume a: "timers st = t # ts" "dataChannel st = Some c" "captured_dataChannel t = Some c"
    have t: "timers ?st' = t # ts" using a(1) f(1) by simp
    let ?s = "?st'\<lparr>timers := ts, uuids_drawn := Suc (uuids_drawn ?st')\<rparr>"
    have "handler Timeout ?st' = Throws InvalidStateError ?s"
      using timeout_throws[OF closed[OF a(2)] t a(3)] .
    moreover have "timers ?s = ts \<and> wire ?s = wire st \<and> events ?s = events st"
      using f by simp
    ultimately show "\<exists>st' s. stop st = Returns st' \<and>
         handler Timeout st' = Throws InvalidStateError s \<and>
         timers s = ts \<and> wire s = wire st \<and> events s = events st"
      using stop_returns[of st] by blast
  qed
  have 3: "dataChannel st = Some c \<and>
    list_all (\<lambda>t. captured_dataChannel t = Some c) (timers st) \<longrightarrow>
      (\<exists>st'. stop st = Returns st' \<and>
         wire (state_of (run (replicate n Timeout) st')) = wire st \<and>
         events (state_of (run (replicate n Timeout) st')) = events st)"
  proof (intro impI, elim conjE)
    assume a: "dataChannel st = Some c"
      "list_all (\<lambda>t. captured_dataChannel t = Some c) (timers st)"
    have "list_all (\<lambda>t. captured_dataChannel t = Some c) (timers ?st')"
      using a(2) f(1) by simp
    from timeouts_on_closed[OF closed[OF a(1)] this, of n]
    show "\<exists>st'. stop st = Returns st' \<and>
         wire (state_of (run (replicate n Timeout) st')) = wire st \<and>
         events (state_of (run (replicate n Timeout) st')) = events st"
      using f stop_returns[of st] by simp
  qed
  show ?thesis using 1 2 3 by blast
qed

text \<open>A palette was asked for, and the session is stopped before the follow-up fires.\<close>

theorem stop_keeps_timers_witness:
  "timers session2 = [\<lparr>captured_dataChannel = Some 0, captured_output = palette_call\<rparr>] \<and>
   dataChannel session2 = Some 0 \<and>
   captured_dataChannel \<lparr>captured_dataChannel = Some 0, captured_output = palette_call\<rparr> = Some 0 \<and>
   list_all (\<lambda>t. captured_dataChannel t = Some 0) (timers session2) \<and>
   (\<exists>st' s. stop session2 = Returns st' \<and> handler Timeout st' = Throws InvalidStateError s \<and>
      timers s = [] \<and> wire s = wire session2 \<and> events s = events session2) \<and>
   (\<exists>st'. stop session2 = Returns st' \<and>
      wire (state_of (run (replicate 2 Timeout) st')) = wire session2 \<and>
      events (state_of (run (replicate 2 Timeout) st')) = events session2)"
proof -
  have h: "timers session2 = [\<lparr>captured_dataChannel = Some 0, captured_output = palette_call\<rparr>]"
      "dataChannel session2 = Some 0"
    by (simp_all add: session2_fields)
  then have l: "list_all (\<lambda>t. captured_dataChannel t = Some 0) (timers session2)"
    by simp
  show ?thesis
    using stop_keeps_timers[of session2
        "\<lparr>captured_dataChannel = Some 0, captured_output = palette_call\<rparr>" "[]" 0 2] h l
    by simp
qed

text \<open>Against C7 as stated: in that session a follow-up is pending after the stop.\<close>

theorem stop_keeps_timers_counterexample:
  "timers (state_of (stop session2)) \<noteq> [] \<and>
   throws (handler Timeout (state_of (stop session2)))"
  by code_simp

section \<open>Routing function calls\<close>

lemma function_call_unparsable:
  assumes "output_type bad = ''function_call''" "JSON_parse (arguments bad) = None"
  shows "function_call r bad st = st\<lparr>console := console st @
      [Console_log ''Function call detected:'', Console_log ''Function arguments:'',
       Console_error ''Error parsing function arguments:'', Console_log ''Raw arguments:'']\<rparr>"
  using assms by (simp add: function_call_def caught_def)

lemma function_call_console:
  "(function_call r x (st\<lparr>console := k\<rparr>))\<lparr>console := []\<rparr> = (function_call r x st)\<lparr>console := []\<rparr>"
  by (simp add: function_call_def caught_def Let_def split: option.splits sum.splits)

lemma fold_function_call_console:
  "(fold (function_call r) xs (st\<lparr>console := k\<rparr>))\<lparr>console := []\<rparr>
     = (fold (function_call r) xs st)\<lparr>console := []\<rparr>"
proof (induction xs arbitrary: st k)
  case Nil
  then show ?case by simp
next
  case (Cons x xs)
  have "function_call r x (st\<lparr>console := k\<rparr>)
      = (function_call r x st)\<lparr>console := console (function_call r x (st\<lparr>console := k\<rparr>))\<rparr>"
    by (simp add: function_call_def caught_def Let_def split: option.splits sum.splits)
  then show ?case using Cons.IH by (metis fold_simps(2))
qed

text \<open>
  In the panel with \<^verbatim>\<open>control_snake\<close>, an output whose arguments do not parse is logged
  as an error and nothing else happens for it; the state after the whole batch is, but
  for the console, the state after the batch without it; and the routing of a
  \<^verbatim>\<open>response.done\<close> with such a batch returns.
\<close>

theorem unparsable_call_skipped:
  assumes "output_type bad = ''function_call''" and "JSON_parse (arguments bad) = None"
  shows "function_call r bad st = st\<lparr>console := console st @
            [Console_log ''Function call detected:'', Console_log ''Function arguments:'',
             Console_error ''Error parsing function arguments:'', Console_log ''Raw arguments:'']\<rparr> \<and>
         (fold (function_call r) (before @ bad # after) st)\<lparr>console := []\<rparr>
            = (fold (function_call r) (before @ after) st)\<lparr>console := []\<rparr> \<and>
         (events r = response_done (before @ bad # after) # older \<longrightarrow>
            route r st = Returns (fold (function_call r) (before @ bad # after) st))"
proof -
  have "fold (function_call r) (before @ bad # after) st
      = fold (function_call r) after
          ((fold (function_call r) before st)\<lparr>console := console (fold (function_call r) before st) @
            [Console_log ''Function call detected:'', Console_log ''Function arguments:'',
             Console_error ''Error parsing function arguments:'', Console_log ''Raw arguments:'']\<rparr>)"
    by (simp add: function_call_unparsable[OF assms])
  then have "(fold (function_call r) (before @ bad # after) st)\<lparr>console := []\<rparr>
            = (fold (function_call r) (before @ after) st)\<lparr>console := []\<rparr>"
    by (simp add: fold_function_call_console)
  moreover have "events r = response_done (before @ bad # after) # older \<longrightarrow>
            route r st = Returns (fold (function_call r) (before @ bad # after) st)"
    by (simp add: route_def response_done_def)
  ultimately show ?thesis
    by (simp add: function_call_unparsable[OF assms])
qed

text \<open>
  A batch of the palette call with the arguments \<^verbatim>\<open>{not json\<close> and a well-formed one:
  the error is logged, and the well-formed call is shown and gets its follow-up.
\<close>

theorem unparsable_call_skipped_witness:
  "output_type malformed_call = ''function_call'' \<and>
   JSON_parse (arguments malformed_call) = None \<and>
   (fold (function_call session1) ([] @ malformed_call # [palette_call]) session1)\<lparr>console := []\<rparr>
     = (fold (function_call session1) ([] @ [palette_call]) session1)\<lparr>console := []\<rparr> \<and>
   functionCallOutput (fold (function_call session1) [malformed_call, palette_call] session1)
     = Some palette_call \<and>
   timers (fold (function_call session1) [malformed_call, palette_call] session1)
     = [\<lparr>captured_dataChannel = Some 0, captured_output = palette_call\<rparr>] \<and>
   console (fold (function_call session1) [malformed_call, palette_call] session1)
     = [Console_log ''Function call detected:'', Console_log ''Function arguments:'',
        Console_error ''Error parsing function arguments:'', Console_log ''Raw arguments:'',
        Console_log ''Function call detected:'', Console_log ''Function arguments:'']"
proof -
  have h: "output_type malformed_call = ''function_call''"
      "JSON_parse (arguments malformed_call) = None"
    by (simp_all add: malformed_call_def)
  have e: "functionCallOutput (fold (function_call session1) [malformed_call, palette_call] session1)
     = Some palette_call"
    "timers (fold (function_call session1) [malformed_call, palette_call] session1)
     = [\<lparr>captured_dataChannel = Some 0, captured_output = palette_call\<rparr>]"
    "console (fold (function_call session1) [malformed_call, palette_call] session1)
     = [Console_log ''Function call detected:'', Console_log ''Function arguments:'',
        Console_error ''Error parsing function arguments:'', Console_log ''Raw arguments:'',
        Console_log ''Function call detected:'', Console_log ''Function arguments:'']"
    by (simp_all add: function_call_def caught_def malformed_call_def palette_call_def
        session1_fields)
  have c: "(fold (function_call session1) ([] @ malformed_call # [palette_call]) session1)\<lparr>console := []\<rparr>
     = (fold (function_call session1) ([] @ [palette_call]) session1)\<lparr>console := []\<rparr>"
    using unparsable_call_skipped[OF h, where r = session1 and st = session1
        and before = "[]" and after = "[palette_call]"]
    by (rule conjunct1[OF conjunct2])
  show ?thesis
    by (intro conjI) (rule h e c)+
qed

text \<open>
  Claim C2 fails in the panel with \<^verbatim>\<open>create_game\<close>. The batch of one palette call with
  the arguments \<^verbatim>\<open>{not json\<close> makes that panel show the call as its active function and
  schedule a follow-up, and nothing is logged as an error; the panel with
  \<^verbatim>\<open>control_snake\<close> logs the error, shows nothing and schedules nothing.
\<close>

theorem game_panel_routes_unparsable:
  "output_type malformed_call = ''function_call'' \<and>
   JSON_parse (arguments malformed_call) = None \<and>
   functionCallOutput (fold (function_call_game session1) [malformed_call] session1)
     = Some malformed_call \<and>
   activeFunction (fold (function_call_game session1) [malformed_call] session1)
     = Some ''display_color_palette'' \<and>
   timers (fold (function_call_game session1) [malformed_call] session1)
     = [\<lparr>captured_dataChannel = Some 0, captured_output = malformed_call\<rparr>] \<and>
   console (fold (function_call_game session1) [malformed_call] session1)
     = [Console_log ''Function call detected:'', Console_log ''Function arguments:''] \<and>
   functionCallOutput (fold (function_call session1) [malformed_call] session1) = None \<and>
   timers (fold (function_call session1) [malformed_call] session1) = [] \<and>
   console (fold (function_call session1) [malformed_call] session1)
     = [Console_log ''Function call detected:'', Console_log ''Function arguments:'',
        Console_error ''Error parsing function arguments:'', Console_log ''Raw arguments:'']"
  by (simp add: function_call_game_def function_call_def caught_def malformed_call_def
      session1_fields)

text \<open>
  Claim C6, as the code has it. Let the arguments of a function call parse. If the call
  is \<^verbatim>\<open>control_snake\<close> and the parsed value is not \<^verbatim>\<open>null\<close>, its \<^verbatim>\<open>direction\<close> becomes the
  command of the game, and nothing is scheduled, transmitted or added to the events. If
  the call is any other, a timer is scheduled for it and nothing is transmitted or added
  to the events; when the timer fires with its channel open, it leaves the pending
  timers and one \<^verbatim>\<open>response.create\<close> is transmitted.
\<close>

theorem parsed_call_routed:
  assumes "output_type call = ''function_call''" and "JSON_parse (arguments call) = Some v"
  shows "(name call = ''control_snake'' \<and> v \<noteq> JNull \<longrightarrow>
            (\<exists>direction. destructure_direction v = Inr direction \<and>
               function_call r call st = st\<lparr>console := console st @
                   [Console_log ''Function call detected:'', Console_log ''Function arguments:''],
                 functionCallOutput := Some call, activeFunction := Some (name call),
                 snakeCommand := direction\<rparr>)) \<and>
         (name call \<noteq> ''control_snake'' \<longrightarrow>
            function_call r call st = st\<lparr>console := console st @
                [Console_log ''Function call detected:'', Console_log ''Function arguments:''],
              functionCallOutput := Some call, activeFunction := Some (name call),
              timers := timers st @
                [\<lparr>captured_dataChannel = dataChannel r, captured_output = call\<rparr>]\<rparr>) \<and>
         (readyState st' c = Open \<and>
          timers st' = \<lparr>captured_dataChannel = Some c, captured_output = call\<rparr> # ts \<longrightarrow>
            (\<exists>m st''. handler Timeout st' = Returns st'' \<and> timers st'' = ts \<and>
               type m = Some ''response.create'' \<and> wire st'' = wire st' @ [(c, m)] \<and>
               events st'' = m # events st'))"
proof -
  have "v \<noteq> JNull \<Longrightarrow> \<exists>direction. destructure_direction v = Inr direction"
    by (cases v) simp_all
  then have 1: "name call = ''control_snake'' \<and> v \<noteq> JNull \<longrightarrow>
            (\<exists>direction. destructure_direction v = Inr direction \<and>
               function_call r call st = st\<lparr>console := console st @
                   [Console_log ''Function call detected:'', Console_log ''Function arguments:''],
                 functionCallOutput := Some call, activeFunction := Some (name call),
                 snakeCommand := direction\<rparr>)"
    using assms by (auto simp: function_call_def Let_def)
  have 2: "name call \<noteq> ''control_snake'' \<longrightarrow>
            function_call r call st = st\<lparr>console := console st @
                [Console_log ''Function call detected:'', Console_log ''Function arguments:''],
              functionCallOutput := Some call, activeFunction := Some (name call),
              timers := timers st @
                [\<lparr>captured_dataChannel = dataChannel r, captured_output = call\<rparr>]\<rparr>"
    using assms by (simp add: function_call_def Let_def)
  have 3: "readyState st' c = Open \<and>
          timers st' = \<lparr>captured_dataChannel = Some c, captured_output = call\<rparr> # ts \<longrightarrow>
            (\<exists>m st''. handler Timeout st' = Returns st'' \<and> timers st'' = ts \<and>
               type m = Some ''response.create'' \<and> wire st'' = wire st' @ [(c, m)] \<and>
               events st'' = m # events st')"
  proof (intro impI, elim conjE)
    assume a: "readyState st' c = Open"
      "timers st' = \<lparr>captured_dataChannel = Some c, captured_output = call\<rparr> # ts"
    have "readyState (st'\<lparr>timers := ts\<rparr>) c = Open" using a(1) by simp
    from sendClientEvent_open[OF this, of "follow_up call"]
    obtain m st'' where s: "sendClientEvent (Some c) (follow_up call) (st'\<lparr>timers := ts\<rparr>)
          = Returns (m, st'')" "type m = type (follow_up call)" "timers st'' = ts"
        "events st'' = m # events st'" "wire st'' = wire st' @ [(c, m)]"
      by auto
    have "handler Timeout st' = Returns st''" using a(2) s(1) by simp
    moreover have "type m = Some ''response.create''" using s(2) by (simp add: follow_up_def)
    ultimately show "\<exists>m st''. handler Timeout st' = Returns st'' \<and> timers st'' = ts \<and>
               type m = Some ''response.create'' \<and> wire st'' = wire st' @ [(c, m)] \<and>
               events st'' = m # events st'"
      using s(3-5) by blast
  qed
  show ?thesis using 1 2 3 by blast
qed

text \<open>
  The snake is sent up; a palette is asked for, and its follow-up fires in the session
  that scheduled it.
\<close>

theorem parsed_call_routed_witness:
  "output_type (snake_call (Encodes (JObject [(''direction'', JString ''up'')]))) = ''function_call'' \<and>
   JSON_parse (arguments (snake_call (Encodes (JObject [(''direction'', JString ''up'')]))))
     = Some (JObject [(''direction'', JString ''up'')]) \<and>
   name (snake_call (Encodes (JObject [(''direction'', JString ''up'')]))) = ''control_snake'' \<and>
   JObject [(''direction'', JString ''up'')] \<noteq> JNull \<and>
   snakeCommand (function_call session1
      (snake_call (Encodes (JObject [(''direction'', JString ''up'')]))) session1)
     = Some (JString ''up'') \<and>
   timers (function_call session1
      (snake_call (Encodes (JObject [(''direction'', JString ''up'')]))) session1) = [] \<and>
   output_type palette_call = ''function_call'' \<and> name palette_call \<noteq> ''control_snake'' \<and>
   timers (function_call session1 palette_call session1)
     = [\<lparr>captured_dataChannel = Some 0, captured_output = palette_call\<rparr>] \<and>
   wire (function_call session1 palette_call session1) = wire session1 \<and>
   readyState session2 0 = Open \<and>
   timers session2 = [\<lparr>captured_dataChannel = Some 0, captured_output = palette_call\<rparr>] \<and>
   (\<exists>m st''. handler Timeout session2 = Returns st'' \<and> timers st'' = [] \<and>
      type m = Some ''response.create'' \<and> wire st'' = wire session2 @ [(0, m)] \<and>
      events st'' = m # events session2)"
proof -
  let ?up = "JObject [(''direction'', JString ''up'')]"
  have a: "output_type (snake_call (Encodes ?up)) = ''function_call''"
      "JSON_parse (arguments (snake_call (Encodes ?up))) = Some ?up"
      "name (snake_call (Encodes ?up)) = ''control_snake''" "?up \<noteq> JNull"
    by (simp_all add: snake_call_def)
  have b: "output_type palette_call = ''function_call''"
      "JSON_parse (arguments palette_call) = Some (JObject [(''theme'', JString ''ocean''),
       (''colors'', JArray [JString ''#001'', JString ''#002'', JString ''#003'',
          JString ''#004'', JString ''#005''])])"
      "name palette_call \<noteq> ''control_snake''"
    by (simp_all add: palette_call_def)
  have s: "readyState session2 0 = Open"
      "timers session2 = [\<lparr>captured_dataChannel = Some 0, captured_output = palette_call\<rparr>]"
    by (simp_all add: session2_fields)
  have 1: "snakeCommand (function_call session1 (snake_call (Encodes ?up)) session1)
        = Some (JString ''up'') \<and>
      timers (function_call session1 (snake_call (Encodes ?up)) session1) = []"
    using parsed_call_routed[OF a(1,2), of session1 session1] a(3,4)
    by (auto simp: session1_fields)
  have 2: "timers (function_call session1 palette_call session1)
        = [\<lparr>captured_dataChannel = Some 0, captured_output = palette_call\<rparr>] \<and>
      wire (function_call session1 palette_call session1) = wire session1"
    using parsed_call_routed[OF b(1,2), of session1 session1] b(3)
    by (simp add: session1_fields)
  have 3: "\<exists>m st''. handler Timeout session2 = Returns st'' \<and> timers st'' = [] \<and>
      type m = Some ''response.create'' \<and> wire st'' = wire session2 @ [(0, m)] \<and>
      events st'' = m # events session2"
    using parsed_call_routed[OF b(1,2), of _ _ session2 0 "[]"] s by blast
  show ?thesis using a b(1,3) s 1 2 3 by simp
qed

text \<open>
  Against C6 as stated: the snake is sent up, then \<^verbatim>\<open>control_snake\<close> comes with the
  arguments \<^verbatim>\<open>null\<close>, which parse. No command is forwarded, the game keeps the command it
  had, and the dispatcher logs an error.
\<close>

theorem parsed_call_routed_counterexample:
  "JSON_parse (arguments (snake_call (Encodes JNull))) = Some JNull \<and>
   snakeCommand (state_of (run
      [Message (Encodes (response_done [snake_call (Encodes (JObject [(''direction'', JString ''up'')]))])),
       Message (Encodes (response_done [snake_call (Encodes JNull)]))] session1))
     = Some (JString ''up'') \<and>
   Console_error ''Error parsing function arguments:'' \<in> set (console (state_of (run
      [Message (Encodes (response_done [snake_call (Encodes (JObject [(''direction'', JString ''up'')]))])),
       Message (Encodes (response_done [snake_call (Encodes JNull)]))] session1)))"
  by code_simp

section \<open>Event ids\<close>

lemma map_fst_zip_fun:
  "length xs = length ys \<Longrightarrow> map (\<lambda>x. f (fst x)) (zip xs ys) = map f xs"
  by (induction rule: list_induct2) auto

lemma sendClientEvent_fresh:
  assumes "readyState st c = Open" "\<not> truthy (event_id m)"
  shows "sendClientEvent (Some c) m st =
     Returns (m\<lparr>event_id := Some (crypto st (uuids_drawn st))\<rparr>,
       st\<lparr>uuids_drawn := Suc (uuids_drawn st),
          wire := wire st @ [(c, m\<lparr>event_id := Some (crypto st (uuids_drawn st))\<rparr>)],
          events := m\<lparr>event_id := Some (crypto st (uuids_drawn st))\<rparr> # events st\<rparr>)"
  using assms
  by (simp add: sendClientEvent_def assign_event_id_def randomUUID_def dc_send_def)

lemma sendClientEvent_carried:
  assumes "readyState st c = Open" "truthy (event_id m)"
  shows "sendClientEvent (Some c) m st =
     Returns (m, st\<lparr>wire := wire st @ [(c, m)], events := m # events st\<rparr>)"
  using assms
  by (simp add: sendClientEvent_def assign_event_id_def dc_send_def)

lemma send_all_fresh:
  assumes "readyState st c = Open" "\<forall>m\<in>set ms. \<not> truthy (event_id m)"
  shows "\<exists>st'. send_all (Some c) ms st = Returns st' \<and>
           crypto st' = crypto st \<and> uuids_drawn st' = uuids_drawn st + length ms \<and>
           wire st' = wire st @ map (\<lambda>(i, m). (c, m\<lparr>event_id := Some (crypto st i)\<rparr>))
                                  (zip [uuids_drawn st ..< uuids_drawn st + length ms] ms)"
  using assms
proof (induction ms arbitrary: st)
  case Nil
  then show ?case by simp
next
  case (Cons m ms)
  let ?m = "m\<lparr>event_id := Some (crypto st (uuids_drawn st))\<rparr>"
  let ?st = "st\<lparr>uuids_drawn := Suc (uuids_drawn st), wire := wire st @ [(c, ?m)],
          events := ?m # events st\<rparr>"
  have s: "sendClientEvent (Some c) m st = Returns (?m, ?st)"
    using Cons.prems by (simp add: sendClientEvent_fresh)
  have "readyState ?st c = Open" "\<forall>m\<in>set ms. \<not> truthy (event_id m)"
    using Cons.prems by simp_all
  from Cons.IH[OF this] obtain st' where st': "send_all (Some c) ms ?st = Returns st'"
     "crypto st' = crypto ?st" "uuids_drawn st' = uuids_drawn ?st + length ms"
     "wire st' = wire ?st @ map (\<lambda>(i, m). (c, m\<lparr>event_id := Some (crypto ?st i)\<rparr>))
                                  (zip [uuids_drawn ?st ..< uuids_drawn ?st + length ms] ms)"
    by blast
  have "[uuids_drawn st ..< uuids_drawn st + length (m # ms)]
      = uuids_drawn st # [Suc (uuids_drawn st) ..< Suc (uuids_drawn st) + length ms]"
    by (simp add: upt_rec)
  then show ?case using s st' by simp
qed

text \<open>
  Claim C8. Let \<^verbatim>\<open>crypto.randomUUID()\<close> never repeat, and let messages that carry no id
  (none, or the empty string, which the code takes for none) be sent one after the other
  on an open channel. Every send returns; each message is transmitted with the next id
  drawn from the generator; these ids are pairwise distinct, and distinct from every id
  drawn before. A message that carries an id is transmitted and recorded as it is.
\<close>

theorem fresh_ids_distinct:
  assumes "inj (crypto st)" and "readyState st c = Open"
    and "\<forall>m\<in>set ms. \<not> truthy (event_id m)"
  shows "(\<exists>st'. send_all (Some c) ms st = Returns st' \<and>
            length (wire st') = length (wire st) + length ms \<and>
            map (event_id \<circ> snd) (drop (length (wire st)) (wire st'))
              = map (\<lambda>i. Some (crypto st i)) [uuids_drawn st ..< uuids_drawn st + length ms] \<and>
            distinct (map (event_id \<circ> snd) (drop (length (wire st)) (wire st'))) \<and>
            (\<forall>i < uuids_drawn st.
               Some (crypto st i) \<notin> set (map (event_id \<circ> snd) (drop (length (wire st)) (wire st'))))) \<and>
         (truthy (event_id m) \<longrightarrow>
            sendClientEvent (Some c) m st =
              Returns (m, st\<lparr>wire := wire st @ [(c, m)], events := m # events st\<rparr>))"
proof -
  obtain st' where st': "send_all (Some c) ms st = Returns st'"
     "wire st' = wire st @ map (\<lambda>(i, m). (c, m\<lparr>event_id := Some (crypto st i)\<rparr>))
                                  (zip [uuids_drawn st ..< uuids_drawn st + length ms] ms)"
    using send_all_fresh[OF assms(2,3)] by blast
  let ?is = "[uuids_drawn st ..< uuids_drawn st + length ms]"
  have ids: "map (event_id \<circ> snd) (drop (length (wire st)) (wire st'))
      = map (\<lambda>i. Some (crypto st i)) ?is"
  proof -
    have "map (event_id \<circ> snd) (map (\<lambda>(i, m). (c, m\<lparr>event_id := Some (crypto st i)\<rparr>)) (zip ?is ms))
        = map (\<lambda>i. Some (crypto st i)) ?is"
      using map_fst_zip_fun[of ?is ms "\<lambda>i. Some (crypto st i)"]
      by (simp add: case_prod_unfold comp_def)
    then show ?thesis using st'(2) by simp
  qed
  have inj: "inj (\<lambda>i. Some (crypto st i))"
    using assms(1) by (simp add: inj_def)
  have d: "distinct (map (\<lambda>i. Some (crypto st i)) ?is)"
    using inj by (simp add: distinct_map inj_on_def inj_def)
  have f: "\<forall>i < uuids_drawn st. Some (crypto st i) \<notin> set (map (\<lambda>i. Some (crypto st i)) ?is)"
    using assms(1) by (fastforce simp: inj_def)
  have len: "length (wire st') = length (wire st) + length ms"
    using st'(2) by simp
  have A: "\<exists>st'. send_all (Some c) ms st = Returns st' \<and>
            length (wire st') = length (wire st) + length ms \<and>
            map (event_id \<circ> snd) (drop (length (wire st)) (wire st'))
              = map (\<lambda>i. Some (crypto st i)) [uuids_drawn st ..< uuids_drawn st + length ms] \<and>
            distinct (map (event_id \<circ> snd) (drop (length (wire st)) (wire st'))) \<and>
            (\<forall>i < uuids_drawn st.
               Some (crypto st i) \<notin> set (map (event_id \<circ> snd) (drop (length (wire st)) (wire st'))))"
  proof (intro exI[of _ st'] conjI)
    show "send_all (Some c) ms st = Returns st'" by (fact st'(1))
    show "length (wire st') = length (wire st) + length ms" by (fact len)
    show "map (event_id \<circ> snd) (drop (length (wire st)) (wire st')) = map (\<lambda>i. Some (crypto st i)) ?is"
      by (fact ids)
    show "distinct (map (event_id \<circ> snd) (drop (length (wire st)) (wire st')))"
      unfolding ids by (fact d)
    show "\<forall>i < uuids_drawn st.
       Some (crypto st i) \<notin> set (map (event_id \<circ> snd) (drop (length (wire st)) (wire st')))"
      unfolding ids by (fact f)
  qed
  have B: "truthy (event_id m) \<longrightarrow>
            sendClientEvent (Some c) m st =
              Returns (m, st\<lparr>wire := wire st @ [(c, m)], events := m # events st\<rparr>)"
    using assms(2) by (simp add: sendClientEvent_carried)
  show ?thesis by (rule conjI[OF A B])
qed

text \<open>Two messages without an id, and \<^verbatim>\<open>session.created\<close> with its own.\<close>

theorem fresh_ids_distinct_witness:
  "inj (crypto session0) \<and> readyState session0 0 = Open \<and>
   \<not> truthy (event_id response_create) \<and> truthy (event_id session_created) \<and>
   map (event_id \<circ> snd) (drop (length (wire session0))
      (wire (state_of (send_all (Some 0) [response_create, response_create] session0))))
     = [Some ''uuid-'', Some ''uuid-x''] \<and>
   distinct (map (event_id \<circ> snd) (drop (length (wire session0))
      (wire (state_of (send_all (Some 0) [response_create, response_create] session0))))) \<and>
   sendClientEvent (Some 0) session_created session0 =
     Returns (session_created, session0\<lparr>wire := wire session0 @ [(0, session_created)],
       events := session_created # events session0\<rparr>)"
proof -
  have "inj sample_uuid"
  proof (rule injI)
    fix x y
    assume "sample_uuid x = sample_uuid y"
    then have "replicate x CHR ''x'' = replicate y CHR ''x''"
      by (simp add: sample_uuid_def)
    then have "length (replicate x CHR ''x'') = length (replicate y CHR ''x'')"
      by (rule arg_cong)
    then show "x = y" by simp
  qed
  then have h1: "inj (crypto session0)" by (simp add: session0_fields)
  have h2: "readyState session0 0 = Open" by (simp add: session0_fields)
  have h3: "\<forall>m\<in>set [response_create, response_create]. \<not> truthy (event_id m)"
    by (simp add: response_create_def truthy_def)
  have h4: "truthy (event_id session_created)"
    by (simp add: session_created_def truthy_def)
  have h5: "map (event_id \<circ> snd) (drop (length (wire session0))
      (wire (state_of (send_all (Some 0) [response_create, response_create] session0))))
     = [Some ''uuid-'', Some ''uuid-x'']"
    by code_simp
  have "sendClientEvent (Some 0) session_created session0 =
     Returns (session_created, session0\<lparr>wire := wire session0 @ [(0, session_created)],
       events := session_created # events session0\<rparr>)"
    using fresh_ids_distinct[OF h1 h2 h3, of session_created] h4 by blast
  then show ?thesis
    using h1 h2 h3 h4 h5 by simp
qed

section \<open>The event log keeps one entry per delta type\<close>














end
